theory Spec2Isabelle
  imports Complex_Main "HOL-Library.List_Lexorder" "HOL-Library.Char_ord"
begin

section \<open>Configuration (config.ts, sync-yaml-config-file.ts)\<close>

text \<open>
  \<^verbatim>\<open>SyncYamlIssuesTypeMappingDefinition\<close> and \<^verbatim>\<open>SyncYamStatusTypeMappingDefinition\<close>:
  one rule of a mapping table. The tables are arrays, so their order is kept.
\<close>

record SyncYamlIssuesTypeMappingDefinition =
  fromGithubLabel :: string
  it_toJira :: string

record SyncYamStatusTypeMappingDefinition =
  fromGithub :: string
  st_toJira :: string

text \<open>
  \<^verbatim>\<open>ProjectConfigurationGitHub\<close>. The \<^verbatim>\<open>Moment\<close> held by \<^verbatim>\<open>startDate\<close> is only ever
  read through \<^verbatim>\<open>toISOString()\<close>; it is represented by that rendering. The field
  \<^verbatim>\<open>projectFields\<close> only contributes text to the GraphQL query and is left out.
\<close>

record ProjectConfigurationGitHub =
  readToken :: string
  owner :: string
  repo :: string
  project :: string
  startDate :: string

record ProjectConfigurationJira =
  host :: string
  projectKey :: string
  writeToken :: string
  component :: string
  globalIdPrefix :: string
  sprintBoard :: string

text \<open>
  \<^verbatim>\<open>ProjectConfiguration\<close>. \<^verbatim>\<open>maxBatchNumberIssues\<close> is a JavaScript number read from
  the YAML file (\<^verbatim>\<open>maxBatchSize\<close>); it is an integer here, negative values included.
\<close>

record ProjectConfiguration =
  cfg_name :: string
  github :: ProjectConfigurationGitHub
  jira :: ProjectConfigurationJira
  issueTypeDefault :: string
  issueTypeMapping :: "SyncYamlIssuesTypeMappingDefinition list"
  statusTypeMapping :: "SyncYamStatusTypeMappingDefinition list"
  statusTypeDefault :: string
  maxBatchNumberIssues :: int

section \<open>Mapping resolution (sync-repo.ts)\<close>

text \<open>
  The \<^verbatim>\<open>for (const mapping of issueTypeMapping)\<close> loop of
  \<^verbatim>\<open>getJiraIssueTypeFromGitHubLabels\<close>: the first rule whose label is included in
  \<^verbatim>\<open>labels\<close> returns; falling out of the loop returns the default. The guard
  \<^verbatim>\<open>if (issueTypeMapping)\<close> holds for every array, and the table is not optional in
  \<^verbatim>\<open>ProjectConfiguration\<close>; the same goes for the status table.
\<close>

fun issueTypeLoop :: "SyncYamlIssuesTypeMappingDefinition list \<Rightarrow> string list \<Rightarrow> string \<Rightarrow> string" where
  "issueTypeLoop [] labels dflt = dflt"
| "issueTypeLoop (mapping # rest) labels dflt =
     (if fromGithubLabel mapping \<in> set labels then it_toJira mapping
      else issueTypeLoop rest labels dflt)"

definition getJiraIssueTypeFromGitHubLabels :: "ProjectConfiguration \<Rightarrow> string list \<Rightarrow> string" where
  "getJiraIssueTypeFromGitHubLabels cfg labels =
     issueTypeLoop (issueTypeMapping cfg) labels (issueTypeDefault cfg)"

text \<open>
  \<^verbatim>\<open>getJiraStatusFromGithubProject(githubStatus?: string)\<close>: the argument may be
  \<^verbatim>\<open>undefined\<close> (\<open>None\<close>), which is \<^verbatim>\<open>===\<close> to no rule's string.
\<close>

fun statusLoop :: "SyncYamStatusTypeMappingDefinition list \<Rightarrow> string option \<Rightarrow> string \<Rightarrow> string" where
  "statusLoop [] githubStatus dflt = dflt"
| "statusLoop (mapping # rest) githubStatus dflt =
     (if githubStatus = Some (fromGithub mapping) then st_toJira mapping
      else statusLoop rest githubStatus dflt)"

definition getJiraStatusFromGithubProject :: "ProjectConfiguration \<Rightarrow> string option \<Rightarrow> string" where
  "getJiraStatusFromGithubProject cfg githubStatus =
     statusLoop (statusTypeMapping cfg) githubStatus (statusTypeDefault cfg)"

section \<open>Source records (github.ts)\<close>

text \<open>
  Optional fields (\<^verbatim>\<open>?\<close> in the interfaces, or read through \<^verbatim>\<open>?.\<close>) are options.
  GraphQL answers \<^verbatim>\<open>null\<close> for an absent object; the filters of the source treat
  \<^verbatim>\<open>null\<close> and \<^verbatim>\<open>undefined\<close> alike (see \<open>syncReleases\<close> and \<open>syncSprints\<close>), so both
  are \<open>None\<close>.
\<close>

record GraphQLSearchIssuesNodeMilestone =
  ms_id :: string
  dueOn :: "string option"
  ms_closed :: "bool option"
  ms_title :: string

record GraphQLSearchIssuesNodeSprint =
  sp_title :: string
  duration :: int
  sp_startDate :: string

text \<open>One element of \<^verbatim>\<open>projectItems.projects\<close>, that is its \<^verbatim>\<open>project\<close> object.\<close>

record ProjectItem =
  pi_title :: "string option"
  pi_status :: "string option"
  sprint :: "GraphQLSearchIssuesNodeSprint option"
  storyPoints :: "rat option"

record GraphQLSearchIssuesNode =
  url :: string
  number :: int
  state :: string
  updatedAt :: string
  body :: string
  title :: string
  labels :: "string list"
  milestone :: "GraphQLSearchIssuesNodeMilestone option"
  projectItems :: "ProjectItem list"

text \<open>
  \<^verbatim>\<open>GraphQLSearchIssuesResponse\<close>: \<open>edges\<close> is
  \<^verbatim>\<open>search.edges.flatMap((edge) => edge.node)\<close>; the rate-limit block is never read.
\<close>

record GraphQLSearchIssuesResponse =
  endCursor :: string
  hasNextPage :: bool
  edges :: "GraphQLSearchIssuesNode list"

section \<open>Destination entities and parameters (jira.ts, jira.js models)\<close>

record Project =
  pr_id :: string
  pr_issueTypes :: "string option list option"

record ProjectComponent =
  pc_id :: "string option"
  pc_name :: "string option"

record Field =
  f_id :: "string option"
  f_name :: "string option"

record Version =
  v_id :: "string option"
  v_name :: "string option"
  v_released :: "bool option"
  v_releaseDate :: "string option"

record Board =
  b_id :: "int option"
  b_name :: "string option"

record Sprint =
  s_id :: int
  s_name :: string
  s_startDate :: "string option"
  s_endDate :: "string option"

record PaginatedSprint =
  pg_values :: "Sprint list"
  isLast :: bool

record Transition =
  tr_id :: "string option"
  tr_to_name :: "string option"

record CreateIssueParams =
  ci_title :: string
  ci_body :: string
  ci_state :: string
  issuetype :: string
  ci_status :: string
  ci_storyPoints :: "rat option"
  fixVersionId :: "string option"
  sprintBoardId :: "int option"
  jiraProjectKey :: "string option"
  globalId :: string
  remoteLinkUrl :: string
  remoteLinkTitle :: string

record CreateReleaseParams =
  cr_name :: string
  cr_released :: bool
  cr_releaseDate :: "string option"

record CreateSprintParams =
  cs_name :: string
  cs_startDate :: string
  cs_endDate :: string

text \<open>\<^verbatim>\<open>CreateVersion\<close> as \<^verbatim>\<open>createRelease\<close> fills it.\<close>

record CreateVersion =
  cv_projectId :: int
  cv_name :: string
  cv_released :: bool
  cv_releaseDate :: "string option"

text \<open>\<^verbatim>\<open>CreateSprint\<close> as \<^verbatim>\<open>createSprint\<close> fills it.\<close>

record CreateSprint =
  originBoardId :: int
  cp_name :: string
  cp_startDate :: string
  cp_endDate :: string

text \<open>
  The object \<^verbatim>\<open>syncReleases\<close> passes to \<^verbatim>\<open>updateRelease\<close>: the destination release
  spread, then \<^verbatim>\<open>id\<close>, \<^verbatim>\<open>name\<close>, \<^verbatim>\<open>released\<close>, \<^verbatim>\<open>releaseDate\<close> overwritten.
\<close>

record UpdateReleaseParams =
  ur_id :: string
  ur_name :: string
  ur_released :: bool
  ur_releaseDate :: "string option"

text \<open>The object \<^verbatim>\<open>syncSprints\<close> passes to \<^verbatim>\<open>updateSprint\<close>.\<close>

record UpdateSprintParams =
  us_sprintId :: int
  us_id :: int
  us_name :: string
  us_startDate :: string
  us_endDate :: string

text \<open>\<^verbatim>\<open>createParams.fields\<close> of \<^verbatim>\<open>createOrUpdateIssue\<close>.\<close>

record CreateFields =
  cf_epicName :: "(string \<times> string) option"
  cf_summary :: string
  cf_project_key :: "string option"
  cf_issuetype_name :: string

text \<open>\<^verbatim>\<open>updateFields\<close> of \<^verbatim>\<open>createOrUpdateIssue\<close>.\<close>

record UpdateFields =
  uf_create :: CreateFields
  uf_storyPoints :: "(string \<times> rat) option"
  uf_components :: "string list option"
  uf_description :: string
  uf_fixVersions :: "string list"

section \<open>Exceptions, external calls and the state of one run\<close>

text \<open>
  \<^verbatim>\<open>HttpException\<close> of jira.js with its \<^verbatim>\<open>status\<close>, \<^verbatim>\<open>statusText\<close> and \<^verbatim>\<open>code\<close>;
  \<^verbatim>\<open>Error\<close> with its message; the \<^verbatim>\<open>RangeError\<close> that \<^verbatim>\<open>Date.prototype.toISOString\<close>
  throws on an invalid date.
\<close>

datatype exn = HttpException int string string | Error string | RangeError

text \<open>
  Every request that leaves the process, in the order issued. \<open>SetTimeout\<close> is the
  30 s pause of the retry in \<^verbatim>\<open>SyncRepository.start\<close>.
\<close>

datatype call =
    GraphqlSearch string string string "string option"
  | GetCurrentUser
  | GetProject string
  | GetProjectComponents string
  | GetFields
  | GetProjectVersions string
  | GetAllBoards string
  | GetAllSprints int int int
  | CreateSprintCall CreateSprint
  | UpdateSprintCall UpdateSprintParams
  | CreateVersionCall CreateVersion
  | UpdateVersionCall UpdateReleaseParams
  | SearchForIssuesUsingJql string string
  | CreateIssue CreateFields
  | CreateOrUpdateRemoteIssueLink string string string string
  | EditIssue string UpdateFields
  | GetIssue string
  | GetTransitions string
  | DoTransition string string
  | MoveIssuesToSprintAndRank int string
  | SetTimeout int

text \<open>
  The two remote systems. Each operation answers from the whole history of calls, the
  current one last, so that an answer may depend on what was written before and the
  same request may fail once and succeed later.
\<close>

record world =
  graphql :: "call list \<Rightarrow> exn + GraphQLSearchIssuesResponse"
  getCurrentUser :: "call list \<Rightarrow> exn + unit"
  getProject :: "call list \<Rightarrow> exn + Project"
  getProjectComponents :: "call list \<Rightarrow> exn + ProjectComponent list"
  getFields :: "call list \<Rightarrow> exn + Field list"
  getProjectVersions :: "call list \<Rightarrow> exn + Version list"
  getAllBoards :: "call list \<Rightarrow> exn + Board list option"
  getAllSprints :: "call list \<Rightarrow> exn + PaginatedSprint"
  createSprintApi :: "call list \<Rightarrow> exn + unit"
  updateSprintApi :: "call list \<Rightarrow> exn + unit"
  createVersion :: "call list \<Rightarrow> exn + unit"
  updateVersion :: "call list \<Rightarrow> exn + unit"
  searchForIssuesUsingJql :: "call list \<Rightarrow> exn + string list"
  createIssue :: "call list \<Rightarrow> exn + string"
  createOrUpdateRemoteIssueLink :: "call list \<Rightarrow> exn + unit"
  editIssue :: "call list \<Rightarrow> exn + unit"
  getIssue :: "call list \<Rightarrow> exn + string option"
  getTransitions :: "call list \<Rightarrow> exn + Transition list option"
  doTransition :: "call list \<Rightarrow> exn + unit"
  moveIssuesToSprintAndRank :: "call list \<Rightarrow> exn + unit"

text \<open>
  Built-ins and libraries outside the repository:
  \<open>dateToISOString s\<close> is \<^verbatim>\<open>new Date(s).toISOString()\<close>, \<open>None\<close> when it throws;
  \<open>momentAddDays s n\<close> is \<^verbatim>\<open>moment(s).add(n, 'day').toISOString()\<close>;
  \<open>to_jira\<close> is \<^verbatim>\<open>jira2md.to_jira\<close>; \<open>toNumber\<close> is \<^verbatim>\<open>Number\<close> on a string.
\<close>

record builtins =
  dateToISOString :: "string \<Rightarrow> string option"
  momentAddDays :: "string \<Rightarrow> int \<Rightarrow> string"
  to_jira :: "string \<Rightarrow> string"
  toNumber :: "string \<Rightarrow> int"

text \<open>
  The mutable state of one \<^verbatim>\<open>SyncRepository\<close> with its \<^verbatim>\<open>Jira\<close> instance, and the
  history of external calls.
\<close>

record st =
  calls :: "call list"
  storyPointsFieldId :: "string option"
  epicNameFieldId :: "string option"
  jproject :: "Project option"
  components :: "ProjectComponent list"
  boardId :: "int option"
  fixVersions :: "string \<rightharpoonup> string option"
  sprints :: "string \<rightharpoonup> int"

text \<open>
  An asynchronous method returns, throws, or (two of its loops are unbounded) is cut off
  when the fuel given to it is used up.
\<close>

datatype 'a result = Return 'a | Throw exn | OutOfFuel

type_synonym 'a action = "st \<Rightarrow> 'a result \<times> st"

definition ret :: "'a \<Rightarrow> 'a action" where
  "ret a s = (Return a, s)"

definition throw :: "exn \<Rightarrow> 'a action" where
  "throw e s = (Throw e, s)"

definition andThen :: "'a action \<Rightarrow> ('a \<Rightarrow> 'b action) \<Rightarrow> 'b action" where
  "andThen m f s =
     (case m s of
        (Return a, s') \<Rightarrow> f a s'
      | (Throw e, s') \<Rightarrow> (Throw e, s')
      | (OutOfFuel, s') \<Rightarrow> (OutOfFuel, s'))"

text \<open>\<^verbatim>\<open>try { m } catch (error) { h(error) }\<close>\<close>

definition tryCatch :: "'a action \<Rightarrow> (exn \<Rightarrow> 'a action) \<Rightarrow> 'a action" where
  "tryCatch m h s =
     (case m s of
        (Throw e, s') \<Rightarrow> h e s'
      | r \<Rightarrow> r)"

text \<open>An awaited request: it is recorded, and the remote system answers.\<close>

definition invoke :: "(call list \<Rightarrow> exn + 'a) \<Rightarrow> call \<Rightarrow> 'a action" where
  "invoke api c s =
     (let h = calls s @ [c]
      in (case api h of Inl e \<Rightarrow> Throw e | Inr a \<Rightarrow> Return a, s\<lparr>calls := h\<rparr>))"

text \<open>\<^verbatim>\<open>for (const x of xs) { await body(x) }\<close>\<close>

fun forEach :: "'a list \<Rightarrow> ('a \<Rightarrow> unit action) \<Rightarrow> unit action" where
  "forEach [] f = ret ()"
| "forEach (x # xs) f = andThen (f x) (\<lambda>_. forEach xs f)"

section \<open>JavaScript helpers\<close>

text \<open>
  \<^verbatim>\<open>xs.slice(0, e)\<close> for an integer \<open>e\<close>: a negative end counts from the end of the
  array and is clamped at 0.
\<close>

definition slice0 :: "'a list \<Rightarrow> int \<Rightarrow> 'a list" where
  "slice0 xs e = (if e < 0 then take (nat (int (length xs) + e)) xs else take (nat e) xs)"

text \<open>\<^verbatim>\<open>xs.find(p)\<close> is \<^const>\<open>find\<close>; \<^verbatim>\<open>s.split('T')[0]\<close> is the text before the first T.\<close>

definition splitT0 :: "string \<Rightarrow> string" where
  "splitT0 s = takeWhile (\<lambda>c. c \<noteq> CHR ''T'') s"

text \<open>\<^verbatim>\<open>s.split('-')\<close>\<close>

fun splitDash :: "string \<Rightarrow> string \<Rightarrow> string list" where
  "splitDash acc [] = [rev acc]"
| "splitDash acc (c # cs) =
     (if c = CHR ''-'' then rev acc # splitDash [] cs else splitDash (c # acc) cs)"

text \<open>
  \<^verbatim>\<open>toLowerCase\<close> and \<^verbatim>\<open>toUpperCase\<close> on the ASCII letters; other bytes are kept.
\<close>

definition lowerChar :: "char \<Rightarrow> char" where
  "lowerChar c =
     (let n = of_char c :: nat in if 65 \<le> n \<and> n \<le> 90 then char_of (n + 32) else c)"

definition upperChar :: "char \<Rightarrow> char" where
  "upperChar c =
     (let n = of_char c :: nat in if 97 \<le> n \<and> n \<le> 122 then char_of (n - 32) else c)"

definition toLowerCase :: "string \<Rightarrow> string" where
  "toLowerCase s = map lowerChar s"

text \<open>The decimal text of an integer, as a template literal renders it.\<close>

fun digitsOf :: "nat \<Rightarrow> nat \<Rightarrow> string" where
  "digitsOf 0 n = []"
| "digitsOf (Suc k) n =
     (if n < 10 then [char_of (48 + n)] else digitsOf k (n div 10) @ [char_of (48 + n mod 10)])"

definition numberToString :: "int \<Rightarrow> string" where
  "numberToString i =
     (if i < 0 then CHR ''-'' # digitsOf (Suc (nat (- i))) (nat (- i))
      else digitsOf (Suc (nat i)) (nat i))"

section \<open>Batch fetcher (github.ts)\<close>

text \<open>
  \<^verbatim>\<open>doGetIssuesUpdatedAfterBatch(cursor?, previousIssues?)\<close>. Each level of the recursion
  issues one query; the fuel bounds the number of pages. The query is named by what
  varies in its text: owner, repository, start date and cursor.
\<close>

definition searchCall :: "ProjectConfiguration \<Rightarrow> string option \<Rightarrow> call" where
  "searchCall cfg cursor =
     GraphqlSearch (owner (github cfg)) (repo (github cfg)) (startDate (github cfg)) cursor"

fun doGetIssuesUpdatedAfterBatch ::
  "nat \<Rightarrow> world \<Rightarrow> ProjectConfiguration \<Rightarrow> string option \<Rightarrow> GraphQLSearchIssuesNode list option
     \<Rightarrow> GraphQLSearchIssuesNode list action" where
  "doGetIssuesUpdatedAfterBatch 0 w cfg cursor previousIssues = (\<lambda>s. (OutOfFuel, s))"
| "doGetIssuesUpdatedAfterBatch (Suc fuel) w cfg cursor previousIssues =
     andThen
       (invoke (graphql w) (searchCall cfg cursor))
       (\<lambda>graphQlResponse.
          let currentEntries = edges graphQlResponse;
              allGraphQlResponse =
                (case previousIssues of
                   Some previous \<Rightarrow> previous @ currentEntries
                 | None \<Rightarrow> currentEntries)
          in if int (length allGraphQlResponse) \<ge> maxBatchNumberIssues cfg
             then ret (slice0 allGraphQlResponse (maxBatchNumberIssues cfg))
             else if hasNextPage graphQlResponse
             then doGetIssuesUpdatedAfterBatch fuel w cfg (Some (endCursor graphQlResponse))
                    (Some allGraphQlResponse)
             else ret allGraphQlResponse)"

record IssuesUpdatedAfter =
  ua_owner :: string
  ua_repo :: string
  afterDate :: string
  issues :: "GraphQLSearchIssuesNode list"

text \<open>
  \<^verbatim>\<open>getIssuesUpdatedAfter\<close>: \<^verbatim>\<open>issues[issues.length - 1]\<close> is \<^verbatim>\<open>undefined\<close> on an empty
  array, and an issue object is always truthy.
\<close>

definition getIssuesUpdatedAfter :: "nat \<Rightarrow> world \<Rightarrow> ProjectConfiguration \<Rightarrow> IssuesUpdatedAfter action" where
  "getIssuesUpdatedAfter fuel w cfg =
     andThen (doGetIssuesUpdatedAfterBatch fuel w cfg None None)
       (\<lambda>fetched.
          let nextStartDate = startDate (github cfg);
              lastItem = (if fetched = [] then None else Some (last fetched))
          in ret \<lparr>ua_owner = owner (github cfg),
                  ua_repo = repo (github cfg),
                  afterDate = (case lastItem of Some item \<Rightarrow> updatedAt item | None \<Rightarrow> nextStartDate),
                  issues = fetched\<rparr>)"

section \<open>Destination client (jira.ts)\<close>

text \<open>Reading and writing the fields of the instance.\<close>

definition gets :: "(st \<Rightarrow> 'a) \<Rightarrow> 'a action" where
  "gets f s = (Return (f s), s)"

definition modify :: "(st \<Rightarrow> st) \<Rightarrow> unit action" where
  "modify f s = (Return (), f s)"

text \<open>
  A string that may be absent, tested for truthiness: \<^verbatim>\<open>undefined\<close> and the empty string
  are both falsy.
\<close>

definition truthy :: "string option \<Rightarrow> string option" where
  "truthy x = (case x of None \<Rightarrow> None | Some v \<Rightarrow> if v = [] then None else Some v)"

definition checkJiraConnection :: "world \<Rightarrow> bool action" where
  "checkJiraConnection w =
     tryCatch (andThen (invoke (getCurrentUser w) GetCurrentUser) (\<lambda>_. ret True))
       (\<lambda>e. ret False)"

definition initAndCheck :: "world \<Rightarrow> ProjectConfiguration \<Rightarrow> unit action" where
  \<open>initAndCheck w cfg =
     andThen (checkJiraConnection w) (\<lambda>jiraConnected.
       if \<not> jiraConnected then throw (Error ''Jira connection error'')
       else
     andThen (invoke (getProject w) (GetProject (projectKey (jira cfg)))) (\<lambda>p.
     andThen (modify (\<lambda>s. s\<lparr>jproject := Some p\<rparr>)) (\<lambda>_.
     let existingIssueTypes =
           (case pr_issueTypes p of None \<Rightarrow> [] | Some ts \<Rightarrow> List.map_filter (\<lambda>t. t) ts);
         wantedIssueTypes = map it_toJira (issueTypeMapping cfg)
     in
     andThen (forEach wantedIssueTypes (\<lambda>wantedIssueType.
                if wantedIssueType \<in> set existingIssueTypes then ret ()
                else throw (Error (''Issue type "'' @ wantedIssueType
                       @ ''" not found in Jira to sync the project '' @ cfg_name cfg)))) (\<lambda>_.
     andThen (invoke (getProjectComponents w) (GetProjectComponents (projectKey (jira cfg)))) (\<lambda>comps.
     andThen (modify (\<lambda>s. s\<lparr>components := comps\<rparr>)) (\<lambda>_.
     let wantedComponent = component (jira cfg)
     in
       if find (\<lambda>c. pc_name c = Some wantedComponent) comps = None
       then throw (Error (''Component "'' @ wantedComponent
              @ ''" not found in Jira to sync the project '' @ cfg_name cfg))
       else
     andThen (invoke (getFields w) GetFields) (\<lambda>fields.
       case Option.bind (find (\<lambda>f. f_name f = Some ''Story Points'') fields) (\<lambda>f. truthy (f_id f)) of
         None \<Rightarrow> throw (Error ''Story Points field cannot be found'')
       | Some storyPointsId \<Rightarrow>
     andThen (modify (\<lambda>s. s\<lparr>storyPointsFieldId := Some storyPointsId\<rparr>)) (\<lambda>_.
       case Option.bind (find (\<lambda>f. f_name f = Some ''Epic Name'') fields) (\<lambda>f. truthy (f_id f)) of
         None \<Rightarrow> throw (Error ''Epic Name field cannot be found'')
       | Some epicNameId \<Rightarrow> modify (\<lambda>s. s\<lparr>epicNameFieldId := Some epicNameId\<rparr>)))))))))\<close>

definition getReleases :: "world \<Rightarrow> ProjectConfiguration \<Rightarrow> Version list action" where
  "getReleases w cfg = invoke (getProjectVersions w) (GetProjectVersions (projectKey (jira cfg)))"

text \<open>
  \<^verbatim>\<open>doGetAllSprintsByBoardId\<close>: the \<^verbatim>\<open>do ... while (!response.isLast)\<close> loop, one request
  per unit of fuel.
\<close>

fun doGetAllSprintsLoop :: "nat \<Rightarrow> world \<Rightarrow> int \<Rightarrow> Sprint list \<Rightarrow> int \<Rightarrow> Sprint list action" where
  "doGetAllSprintsLoop 0 w board allSprints startAt = (\<lambda>s. (OutOfFuel, s))"
| "doGetAllSprintsLoop (Suc fuel) w board allSprints startAt =
     andThen (invoke (getAllSprints w) (GetAllSprints board startAt 50)) (\<lambda>response.
       let allSprints' = allSprints @ pg_values response;
           startAt' = startAt + int (length (pg_values response))
       in if \<not> isLast response then doGetAllSprintsLoop fuel w board allSprints' startAt'
          else ret allSprints')"

definition doGetAllSprintsByBoardId :: "nat \<Rightarrow> world \<Rightarrow> int \<Rightarrow> Sprint list action" where
  "doGetAllSprintsByBoardId fuel w board = doGetAllSprintsLoop fuel w board [] 0"

definition getSprints :: "nat \<Rightarrow> world \<Rightarrow> ProjectConfiguration \<Rightarrow> Sprint list action" where
  "getSprints fuel w cfg =
     andThen (invoke (getAllBoards w) (GetAllBoards (projectKey (jira cfg)))) (\<lambda>boards.
       let board = Option.bind boards (find (\<lambda>b. b_name b = Some (sprintBoard (jira cfg))))
       in case Option.bind board b_id of
            None \<Rightarrow> throw (Error (''Board with name '' @ sprintBoard (jira cfg)
                       @ '' not found for project '' @ projectKey (jira cfg)))
          | Some i \<Rightarrow>
              if i = 0
              then throw (Error (''Board with name '' @ sprintBoard (jira cfg)
                       @ '' not found for project '' @ projectKey (jira cfg)))
              else andThen (modify (\<lambda>s. s\<lparr>boardId := Some i\<rparr>))
                     (\<lambda>_. doGetAllSprintsByBoardId fuel w i))"

definition createSprint :: "world \<Rightarrow> CreateSprintParams \<Rightarrow> unit action" where
  "createSprint w sp =
     andThen (gets boardId) (\<lambda>b.
       case b of
         None \<Rightarrow> throw (Error ''Board id not initialized, cannot create sprint'')
       | Some i \<Rightarrow>
           if i = 0 then throw (Error ''Board id not initialized, cannot create sprint'')
           else invoke (createSprintApi w)
                  (CreateSprintCall \<lparr>originBoardId = i, cp_name = cs_name sp,
                     cp_startDate = cs_startDate sp, cp_endDate = cs_endDate sp\<rparr>))"

definition updateSprint :: "world \<Rightarrow> UpdateSprintParams \<Rightarrow> unit action" where
  "updateSprint w params = invoke (updateSprintApi w) (UpdateSprintCall params)"

definition createRelease :: "builtins \<Rightarrow> world \<Rightarrow> CreateReleaseParams \<Rightarrow> unit action" where
  "createRelease env w release =
     andThen (gets jproject) (\<lambda>p.
       case p of
         None \<Rightarrow> throw (Error ''Project not initialized, cannot create release'')
       | Some pr \<Rightarrow>
           invoke (createVersion w)
             (CreateVersionCall \<lparr>cv_projectId = toNumber env (pr_id pr), cv_name = cr_name release,
                cv_released = cr_released release, cv_releaseDate = cr_releaseDate release\<rparr>))"

definition updateRelease :: "world \<Rightarrow> UpdateReleaseParams \<Rightarrow> unit action" where
  "updateRelease w params = invoke (updateVersion w) (UpdateVersionCall params)"

text \<open>
  \<^verbatim>\<open>findExistingGithubIssueInJira\<close>: the request carries the global id and the project
  key (the two holes of the JQL text); the answer is the list of keys found and
  \<^verbatim>\<open>issues.issues?.[0]?.key\<close> is its head.
\<close>

definition findExistingGithubIssueInJira :: "world \<Rightarrow> ProjectConfiguration \<Rightarrow> string \<Rightarrow> string option action" where
  "findExistingGithubIssueInJira w cfg remoteId =
     andThen (invoke (searchForIssuesUsingJql w)
                (SearchForIssuesUsingJql remoteId (projectKey (jira cfg))))
       (\<lambda>found. ret (case found of [] \<Rightarrow> None | k # _ \<Rightarrow> Some k))"

definition getTransitionId :: "world \<Rightarrow> string \<Rightarrow> string \<Rightarrow> string option action" where
  "getTransitionId w issueKey targetStatus =
     andThen (invoke (getTransitions w) (GetTransitions issueKey)) (\<lambda>transitions.
       let transition =
             Option.bind transitions
               (find (\<lambda>t. map_option toLowerCase (tr_to_name t) = Some (toLowerCase targetStatus)))
       in ret (Option.bind transition tr_id))"

definition updateIssueStatusTo :: "world \<Rightarrow> string \<Rightarrow> string \<Rightarrow> unit action" where
  \<open>updateIssueStatusTo w issueKey newStatus =
     andThen (getTransitionId w issueKey newStatus) (\<lambda>transitionId.
       case truthy transitionId of
         None \<Rightarrow> throw (Error (''Transition to status "'' @ newStatus @ ''" not found''))
       | Some i \<Rightarrow> invoke (doTransition w) (DoTransition issueKey i))\<close>

text \<open>The object \<^verbatim>\<open>createParams.fields\<close> built by \<^verbatim>\<open>createOrUpdateIssue\<close>.\<close>

definition createFieldsOf :: "string option \<Rightarrow> CreateIssueParams \<Rightarrow> CreateFields" where
  "createFieldsOf epicField params =
     \<lparr>cf_epicName =
        (case truthy epicField of
           Some fid \<Rightarrow> if issuetype params = ''Epic'' then Some (fid, ci_title params) else None
         | None \<Rightarrow> None),
      cf_summary = ci_title params,
      cf_project_key = jiraProjectKey params,
      cf_issuetype_name = issuetype params\<rparr>"

text \<open>
  The object \<^verbatim>\<open>updateFields\<close> built by \<^verbatim>\<open>createOrUpdateIssue\<close>; the story points are
  \<^verbatim>\<open>createOrUpdateIssueParams.storyPoints ?? 1\<close>.
\<close>

definition updateFieldsOf ::
  "string option \<Rightarrow> ProjectComponent list \<Rightarrow> ProjectConfiguration \<Rightarrow> CreateFields
     \<Rightarrow> CreateIssueParams \<Rightarrow> UpdateFields" where
  "updateFieldsOf storyPointsField comps cfg createFields params =
     \<lparr>uf_create = createFields,
      uf_storyPoints =
        (case truthy storyPointsField of
           Some fid \<Rightarrow> Some (fid, case ci_storyPoints params of Some v \<Rightarrow> v | None \<Rightarrow> 1)
         | None \<Rightarrow> None),
      uf_components =
        (case Option.bind (find (\<lambda>c. pc_name c = Some (component (jira cfg))) comps)
                (\<lambda>c. truthy (pc_id c)) of
           Some i \<Rightarrow> Some [i]
         | None \<Rightarrow> None),
      uf_description = ci_body params,
      uf_fixVersions = (case truthy (fixVersionId params) of Some v \<Rightarrow> [v] | None \<Rightarrow> [])\<rparr>"

definition createOrUpdateIssue :: "world \<Rightarrow> ProjectConfiguration \<Rightarrow> CreateIssueParams \<Rightarrow> string action" where
  "createOrUpdateIssue w cfg params =
     andThen (gets storyPointsFieldId) (\<lambda>storyPointsField.
       if truthy storyPointsField = None
       then throw (Error ''Story Points field not initialized, cannot create or update issue'')
       else
     andThen (gets epicNameFieldId) (\<lambda>epicField.
       if truthy epicField = None \<and> issuetype params = ''Epic''
       then throw (Error ''Epic Name field not initialized, cannot create or update issue'')
       else
     let createFields = createFieldsOf epicField params
     in
     andThen (findExistingGithubIssueInJira w cfg (globalId params)) (\<lambda>existingKey.
     andThen (case truthy existingKey of
                None \<Rightarrow> invoke (createIssue w) (CreateIssue createFields)
              | Some k \<Rightarrow> ret k) (\<lambda>issueKey.
     andThen (invoke (createOrUpdateRemoteIssueLink w)
                (CreateOrUpdateRemoteIssueLink issueKey (globalId params)
                   (remoteLinkUrl params) (remoteLinkTitle params))) (\<lambda>_.
     andThen (gets components) (\<lambda>comps.
     andThen (invoke (editIssue w)
                (EditIssue issueKey
                   (updateFieldsOf storyPointsField comps cfg createFields params))) (\<lambda>_.
     andThen (invoke (getIssue w) (GetIssue issueKey)) (\<lambda>currentStatus.
     andThen (if map_option toLowerCase currentStatus \<noteq> Some (toLowerCase (ci_status params))
              then updateIssueStatusTo w issueKey (ci_status params)
              else ret ()) (\<lambda>_.
     andThen (case sprintBoardId params of
                None \<Rightarrow> ret ()
              | Some sid \<Rightarrow>
                  if sid = 0 then ret ()
                  else invoke (moveIssuesToSprintAndRank w) (MoveIssuesToSprintAndRank sid issueKey))
       (\<lambda>_. ret issueKey))))))))))"

section \<open>Entity reconciler (sync-repo.ts)\<close>

text \<open>A synchronous computation that may throw, run inside an asynchronous method.\<close>

definition liftE :: "exn + 'a \<Rightarrow> 'a action" where
  "liftE r = (case r of Inl e \<Rightarrow> throw e | Inr a \<Rightarrow> ret a)"

text \<open>
  A call that is not awaited: the request is issued, its outcome is not observed by the
  caller (a rejection stays an unhandled promise rejection).
\<close>

definition notAwaited :: "unit action \<Rightarrow> unit action" where
  "notAwaited m s = (case m s of (r, s') \<Rightarrow> (Return (), s'))"

text \<open>\<^verbatim>\<open>xs.findIndex(p)\<close>, \<open>-1\<close> when no element satisfies \<open>p\<close>.\<close>

fun findIndex :: "('a \<Rightarrow> bool) \<Rightarrow> 'a list \<Rightarrow> int" where
  "findIndex p [] = -1"
| "findIndex p (x # xs) =
     (if p x then 0 else (let i = findIndex p xs in if i < 0 then -1 else i + 1))"

text \<open>
  \<^verbatim>\<open>xs.filter((m, index) => xs.findIndex((m2) => m2?.title === m?.title) === index)\<close>,
  with \<open>key\<close> for the title.
\<close>

definition withoutDuplicates :: "('a \<Rightarrow> string) \<Rightarrow> 'a list \<Rightarrow> 'a list" where
  "withoutDuplicates key xs =
     map snd (filter (\<lambda>(index, m). findIndex (\<lambda>m2. key m2 = key m) xs = int index)
                (enumerate 0 xs))"

definition fromGithubMilestoneToJiraRelease ::
  "builtins \<Rightarrow> GraphQLSearchIssuesNodeMilestone \<Rightarrow> exn + CreateReleaseParams" where
  "fromGithubMilestoneToJiraRelease env githubMilestone =
     (case truthy (dueOn githubMilestone) of
        None \<Rightarrow>
          Inr \<lparr>cr_name = ms_title githubMilestone,
               cr_released = (case ms_closed githubMilestone of Some b \<Rightarrow> b | None \<Rightarrow> False),
               cr_releaseDate = None\<rparr>
      | Some d \<Rightarrow>
          (case dateToISOString env d of
             None \<Rightarrow> Inl RangeError
           | Some isoText \<Rightarrow>
               Inr \<lparr>cr_name = ms_title githubMilestone,
                    cr_released = (case ms_closed githubMilestone of Some b \<Rightarrow> b | None \<Rightarrow> False),
                    cr_releaseDate = Some (splitT0 isoText)\<rparr>))"

text \<open>
  The milestones of \<^verbatim>\<open>syncReleases\<close>: those present with a truthy id, then without
  duplicate titles, then with the project name as prefix.
\<close>

definition githubReleases :: "GraphQLSearchIssuesNode list \<Rightarrow> GraphQLSearchIssuesNodeMilestone list" where
  "githubReleases fetched = filter (\<lambda>m. ms_id m \<noteq> []) (List.map_filter milestone fetched)"

definition githubReleasesWithoutDuplicates ::
  "GraphQLSearchIssuesNode list \<Rightarrow> GraphQLSearchIssuesNodeMilestone list" where
  "githubReleasesWithoutDuplicates fetched = withoutDuplicates ms_title (githubReleases fetched)"

definition githubReleasesWithProjectPrefix ::
  "ProjectConfiguration \<Rightarrow> GraphQLSearchIssuesNode list \<Rightarrow> GraphQLSearchIssuesNodeMilestone list" where
  "githubReleasesWithProjectPrefix cfg fetched =
     map (\<lambda>release. release\<lparr>ms_title := cfg_name cfg @ '' '' @ ms_title release\<rparr>)
       (githubReleasesWithoutDuplicates fetched)"

definition releasesToCreate ::
  "ProjectConfiguration \<Rightarrow> Version list \<Rightarrow> GraphQLSearchIssuesNode list
     \<Rightarrow> GraphQLSearchIssuesNodeMilestone list" where
  "releasesToCreate cfg jiraReleases fetched =
     filter (\<lambda>release. find (\<lambda>r. v_name r = Some (ms_title release)) jiraReleases = None)
       (githubReleasesWithProjectPrefix cfg fetched)"

text \<open>The body of the loop \<^verbatim>\<open>for (const release of githubReleasesWithoutDuplicates)\<close>.\<close>

definition updateReleaseStep ::
  "builtins \<Rightarrow> world \<Rightarrow> Version list \<Rightarrow> GraphQLSearchIssuesNodeMilestone \<Rightarrow> unit action" where
  "updateReleaseStep env w jiraReleases release =
     (case find (\<lambda>r. v_name r = Some (ms_title release)) jiraReleases of
        None \<Rightarrow> ret ()
      | Some jiraRelease \<Rightarrow>
          andThen (liftE (fromGithubMilestoneToJiraRelease env release)) (\<lambda>fromGithubRelease.
            if v_name jiraRelease \<noteq> Some (cr_name fromGithubRelease)
               \<or> v_released jiraRelease \<noteq> Some (cr_released fromGithubRelease)
               \<or> v_releaseDate jiraRelease \<noteq> cr_releaseDate fromGithubRelease
            then updateRelease w
                   \<lparr>ur_id = (case v_id jiraRelease of Some i \<Rightarrow> i | None \<Rightarrow> []),
                    ur_name = cr_name fromGithubRelease,
                    ur_released = cr_released fromGithubRelease,
                    ur_releaseDate = cr_releaseDate fromGithubRelease\<rparr>
            else ret ()))"

text \<open>\<^verbatim>\<open>this.#fixVersions.set(release.name ?? release.id ?? 'unknown', release.id)\<close>\<close>

definition setFixVersion :: "(string \<rightharpoonup> string option) \<Rightarrow> Version \<Rightarrow> (string \<rightharpoonup> string option)" where
  "setFixVersion m release =
     m((case v_name release of
          Some n \<Rightarrow> n
        | None \<Rightarrow> (case v_id release of Some i \<Rightarrow> i | None \<Rightarrow> ''unknown'')) \<mapsto> v_id release)"

definition syncReleases ::
  "builtins \<Rightarrow> world \<Rightarrow> ProjectConfiguration \<Rightarrow> GraphQLSearchIssuesNode list \<Rightarrow> unit action" where
  "syncReleases env w cfg fetched =
     andThen (getReleases w cfg) (\<lambda>jiraReleases.
     andThen (forEach (releasesToCreate cfg jiraReleases fetched) (\<lambda>release.
                andThen (liftE (fromGithubMilestoneToJiraRelease env release)) (\<lambda>jiraRelease.
                  notAwaited (createRelease env w jiraRelease)))) (\<lambda>_.
     andThen (forEach (githubReleasesWithoutDuplicates fetched)
                (updateReleaseStep env w jiraReleases)) (\<lambda>_.
     andThen (getReleases w cfg) (\<lambda>jiraReleasesAfterUpdate.
       modify (\<lambda>s. s\<lparr>fixVersions := foldl setFixVersion (fixVersions s) jiraReleasesAfterUpdate\<rparr>)))))"

definition fromGithubSprintToJiraSprint ::
  "builtins \<Rightarrow> GraphQLSearchIssuesNodeSprint \<Rightarrow> exn + CreateSprintParams" where
  "fromGithubSprintToJiraSprint env githubSprint =
     (case dateToISOString env (sp_startDate githubSprint) of
        None \<Rightarrow> Inl RangeError
      | Some startIso \<Rightarrow>
          Inr \<lparr>cs_name = sp_title githubSprint,
               cs_startDate = startIso,
               cs_endDate = momentAddDays env startIso (duration githubSprint)\<rparr>)"

text \<open>
  The sprints of \<^verbatim>\<open>syncSprints\<close>: the board items of all issues that carry a sprint and
  belong to the configured board, their sprints with a truthy title, then without
  duplicate titles.
\<close>

definition filteredGithubSprints :: "ProjectConfiguration \<Rightarrow> GraphQLSearchIssuesNode list \<Rightarrow> ProjectItem list" where
  "filteredGithubSprints cfg fetched =
     filter (\<lambda>p. pi_title p = Some (project (github cfg)))
       (filter (\<lambda>p. sprint p \<noteq> None) (concat (map projectItems fetched)))"

definition githubSprints :: "ProjectConfiguration \<Rightarrow> GraphQLSearchIssuesNode list \<Rightarrow> GraphQLSearchIssuesNodeSprint list" where
  "githubSprints cfg fetched =
     filter (\<lambda>s. sp_title s \<noteq> []) (List.map_filter sprint (filteredGithubSprints cfg fetched))"

definition githubSprintsWithoutDuplicates ::
  "ProjectConfiguration \<Rightarrow> GraphQLSearchIssuesNode list \<Rightarrow> GraphQLSearchIssuesNodeSprint list" where
  "githubSprintsWithoutDuplicates cfg fetched = withoutDuplicates sp_title (githubSprints cfg fetched)"

definition sprintsToCreateInJira ::
  "ProjectConfiguration \<Rightarrow> Sprint list \<Rightarrow> GraphQLSearchIssuesNode list \<Rightarrow> GraphQLSearchIssuesNodeSprint list" where
  "sprintsToCreateInJira cfg jiraSprints fetched =
     filter (\<lambda>s. sp_startDate s \<noteq> [] \<and> duration s \<noteq> 0)
       (filter (\<lambda>s. find (\<lambda>j. s_name j = sp_title s) jiraSprints = None)
          (githubSprintsWithoutDuplicates cfg fetched))"

text \<open>The comparison of the update loop of \<^verbatim>\<open>syncSprints\<close>, on the days only.\<close>

definition sprintDiffers :: "Sprint \<Rightarrow> CreateSprintParams \<Rightarrow> bool" where
  "sprintDiffers jiraSprint fromGithubSprint =
     (let shortGithubStartDate = splitT0 (cs_startDate fromGithubSprint);
          shortJiraStartDate = map_option splitT0 (s_startDate jiraSprint);
          shortGithubEndDate = splitT0 (cs_endDate fromGithubSprint);
          shortJiraEndDate = map_option splitT0 (s_endDate jiraSprint)
      in s_name jiraSprint \<noteq> cs_name fromGithubSprint
         \<or> shortJiraStartDate \<noteq> Some shortGithubStartDate
         \<or> Some shortGithubEndDate \<noteq> shortJiraEndDate)"

definition updatedSprint :: "Sprint \<Rightarrow> CreateSprintParams \<Rightarrow> UpdateSprintParams" where
  "updatedSprint jiraSprint fromGithubSprint =
     \<lparr>us_sprintId = s_id jiraSprint,
      us_id = s_id jiraSprint,
      us_name = cs_name fromGithubSprint,
      us_startDate = cs_startDate fromGithubSprint,
      us_endDate = cs_endDate fromGithubSprint\<rparr>"

text \<open>The body of the loop \<^verbatim>\<open>for (const githubSprint of githubSprintsWithoutDuplicates)\<close>.\<close>

definition updateSprintStep ::
  "builtins \<Rightarrow> world \<Rightarrow> Sprint list \<Rightarrow> GraphQLSearchIssuesNodeSprint \<Rightarrow> unit action" where
  "updateSprintStep env w jiraSprints githubSprint =
     (case find (\<lambda>r. s_name r = sp_title githubSprint) jiraSprints of
        None \<Rightarrow> ret ()
      | Some jiraSprint \<Rightarrow>
          andThen (liftE (fromGithubSprintToJiraSprint env githubSprint)) (\<lambda>fromGithubSprint.
            if sprintDiffers jiraSprint fromGithubSprint
            then updateSprint w (updatedSprint jiraSprint fromGithubSprint)
            else ret ()))"

text \<open>
  Lines 140 to 204 of \<^verbatim>\<open>syncSprints\<close>: what is done with the destination's sprints once
  they are fetched, before the list is refreshed.
\<close>

definition reconcileSprints ::
  "builtins \<Rightarrow> world \<Rightarrow> ProjectConfiguration \<Rightarrow> Sprint list \<Rightarrow> GraphQLSearchIssuesNode list
     \<Rightarrow> unit action" where
  "reconcileSprints env w cfg jiraSprints fetched =
     andThen (forEach (sprintsToCreateInJira cfg jiraSprints fetched) (\<lambda>sprintToCreate.
                andThen (liftE (fromGithubSprintToJiraSprint env sprintToCreate))
                  (createSprint w))) (\<lambda>_.
       forEach (githubSprintsWithoutDuplicates cfg fetched) (updateSprintStep env w jiraSprints))"

definition syncSprints ::
  "nat \<Rightarrow> builtins \<Rightarrow> world \<Rightarrow> ProjectConfiguration \<Rightarrow> GraphQLSearchIssuesNode list \<Rightarrow> unit action" where
  "syncSprints fuel env w cfg fetched =
     andThen (getSprints fuel w cfg) (\<lambda>jiraSprints.
     andThen (reconcileSprints env w cfg jiraSprints fetched) (\<lambda>_.
     andThen (getSprints fuel w cfg) (\<lambda>jiraSprintsAfterUpdate.
       modify (\<lambda>s. s\<lparr>sprints := foldl (\<lambda>m sp. m(s_name sp \<mapsto> s_id sp)) (sprints s)
                                    jiraSprintsAfterUpdate\<rparr>))))"

section \<open>Issue upsert engine (sync-repo.ts)\<close>

text \<open>
  The first part of the body of the loop of \<^verbatim>\<open>SyncRepository.start\<close>: the parameters
  built for one issue, from the two lookup tables. \<^verbatim>\<open>jiraProjectKey\<close> is not set by the
  source. The story points are copied only if truthy (\<^verbatim>\<open>if (storyPoints)\<close>).
\<close>

definition remoteLinkTitleOf :: "ProjectConfiguration \<Rightarrow> GraphQLSearchIssuesNode \<Rightarrow> string" where
  "remoteLinkTitleOf cfg issue =
     concat (map (\<lambda>word. map upperChar (take 1 word)) (splitDash [] (repo (github cfg))))
       @ '' #'' @ numberToString (number issue)"

definition issueToCreateOf ::
  "builtins \<Rightarrow> ProjectConfiguration \<Rightarrow> (string \<rightharpoonup> string option) \<Rightarrow> (string \<rightharpoonup> int)
     \<Rightarrow> GraphQLSearchIssuesNode \<Rightarrow> CreateIssueParams" where
  "issueToCreateOf env cfg fixVersionsMap sprintsMap issue =
     (let projectData = find (\<lambda>p. pi_title p = Some (project (github cfg))) (projectItems issue);
          projectStatus = Option.bind projectData pi_status;
          points = Option.bind projectData storyPoints;
          sprintName = truthy (map_option sp_title (Option.bind projectData sprint))
      in \<lparr>ci_title = title issue,
          ci_body = to_jira env (body issue),
          ci_state = state issue,
          issuetype = getJiraIssueTypeFromGitHubLabels cfg (labels issue),
          ci_status = getJiraStatusFromGithubProject cfg projectStatus,
          ci_storyPoints = (case points of Some v \<Rightarrow> if v \<noteq> 0 then Some v else None | None \<Rightarrow> None),
          fixVersionId =
            (case milestone issue of
               Some m \<Rightarrow>
                 (case fixVersionsMap (cfg_name cfg @ '' '' @ ms_title m) of
                    Some v \<Rightarrow> v
                  | None \<Rightarrow> None)
             | None \<Rightarrow> None),
          sprintBoardId = Option.bind sprintName sprintsMap,
          jiraProjectKey = None,
          globalId = globalIdPrefix (jira cfg) @ ''-'' @ numberToString (number issue),
          remoteLinkUrl = url issue,
          remoteLinkTitle = remoteLinkTitleOf cfg issue\<rparr>)"

text \<open>
  The \<^verbatim>\<open>catch\<close> block of the loop: on the throttling shape, the pause and one more call
  of \<^verbatim>\<open>createOrUpdateIssue\<close>, which stands inside the handler and outside any \<^verbatim>\<open>try\<close>.
\<close>

definition isThrottling :: "exn \<Rightarrow> bool" where
  "isThrottling e =
     (case e of
        HttpException status statusText code \<Rightarrow>
          status = 401 \<and> statusText = ''Unauthorized'' \<and> code = ''ERR_BAD_REQUEST''
      | _ \<Rightarrow> False)"

definition pause :: "int \<Rightarrow> unit action" where
  "pause ms = invoke (\<lambda>h. Inr ()) (SetTimeout ms)"

definition upsertIssue ::
  "builtins \<Rightarrow> world \<Rightarrow> ProjectConfiguration \<Rightarrow> GraphQLSearchIssuesNode \<Rightarrow> unit action" where
  "upsertIssue env w cfg issue =
     andThen (gets (\<lambda>s. issueToCreateOf env cfg (fixVersions s) (sprints s) issue)) (\<lambda>issueToCreate.
       tryCatch (andThen (createOrUpdateIssue w cfg issueToCreate) (\<lambda>_. ret ()))
         (\<lambda>error.
            if isThrottling error
            then andThen (pause 30000) (\<lambda>_.
                   andThen (createOrUpdateIssue w cfg issueToCreate) (\<lambda>_. ret ()))
            else ret ()))"

text \<open>\<^verbatim>\<open>SyncRepository.start\<close>; the result is \<^verbatim>\<open>afterDate\<close>.\<close>

definition start :: "nat \<Rightarrow> builtins \<Rightarrow> world \<Rightarrow> ProjectConfiguration \<Rightarrow> string action" where
  "start fuel env w cfg =
     andThen (initAndCheck w cfg) (\<lambda>_.
     andThen (getIssuesUpdatedAfter fuel w cfg) (\<lambda>recentIssuesSearch.
     andThen (syncReleases env w cfg (issues recentIssuesSearch)) (\<lambda>_.
     andThen (syncSprints fuel env w cfg (issues recentIssuesSearch)) (\<lambda>_.
     andThen (forEach (issues recentIssuesSearch) (upsertIssue env w cfg)) (\<lambda>_.
       ret (afterDate recentIssuesSearch))))))"

section \<open>Sync orchestrator (sync.ts)\<close>

record SyncProjectResult =
  syncProjectName :: string
  res_afterDate :: string

text \<open>
  \<^verbatim>\<open>new SyncRepository(projectConfiguration)\<close>: empty lookup tables and an uninitialised
  \<^verbatim>\<open>Jira\<close> instance; the history of calls goes on.
\<close>

definition newSyncRepository :: "call list \<Rightarrow> st" where
  "newSyncRepository h =
     \<lparr>calls = h, storyPointsFieldId = None, epicNameFieldId = None, jproject = None,
      components = [], boardId = None, fixVersions = Map.empty, sprints = Map.empty\<rparr>"

text \<open>
  The loop of \<^verbatim>\<open>Sync.start\<close> over the project configurations, with the results pushed
  so far. There is no \<^verbatim>\<open>try\<close> around the pass of a project.
\<close>

fun syncLoop ::
  "nat \<Rightarrow> builtins \<Rightarrow> world \<Rightarrow> ProjectConfiguration list \<Rightarrow> SyncProjectResult list \<Rightarrow> call list
     \<Rightarrow> SyncProjectResult list result \<times> call list" where
  "syncLoop fuel env w [] results h = (Return results, h)"
| "syncLoop fuel env w (projectConfiguration # rest) results h =
     (case start fuel env w projectConfiguration (newSyncRepository h) of
        (Return projectResult, s) \<Rightarrow>
          syncLoop fuel env w rest
            (results @ [\<lparr>syncProjectName = cfg_name projectConfiguration,
                          res_afterDate = projectResult\<rparr>])
            (calls s)
      | (Throw e, s) \<Rightarrow> (Throw e, calls s)
      | (OutOfFuel, s) \<Rightarrow> (OutOfFuel, calls s))"

text \<open>
  \<^verbatim>\<open>Sync.start\<close>, given the list that \<^verbatim>\<open>getProjectConfigurations()\<close> returned.
\<close>

definition Sync_start ::
  "nat \<Rightarrow> builtins \<Rightarrow> world \<Rightarrow> ProjectConfiguration list
     \<Rightarrow> SyncProjectResult list result \<times> call list" where
  "Sync_start fuel env w projectConfigurations = syncLoop fuel env w projectConfigurations [] []"

section \<open>Call governor (throttle-queue.ts)\<close>

text \<open>
  A wrapped call \<^verbatim>\<open>fn: () => Promise<T>\<close> is represented by what awaiting it gives:
  \<open>Inr v\<close> when it resolves with \<open>v\<close>, \<open>Inl e\<close> when it rejects (or throws) with \<open>e\<close>.
  The promise that \<^verbatim>\<open>throttle\<close> returns is named by a ticket, the number of calls
  submitted before it. The closure pushed on the queue holds the call and the
  \<^verbatim>\<open>resolve\<close>/\<^verbatim>\<open>reject\<close> of that promise, hence the pair of ticket and call.

  Besides the four fields of the class, the state keeps the pending \<^verbatim>\<open>setTimeout\<close> (the
  time at which it is due), the calls started and not yet settled, and two records of
  what happened: the tickets in the order their calls were started, and how each
  caller's promise was settled.
\<close>

record ('e, 'v) ThrottleQueue =
  intervalMs :: int
  lastCallTime :: int
  queue :: "(nat \<times> ('e + 'v)) list"
  isProcessing :: bool
  timer :: "int option"
  submitted :: nat
  inFlight :: "(nat \<times> ('e + 'v)) list"
  dispatched :: "nat list"
  promises :: "nat \<rightharpoonup> ('e + 'v)"

definition newThrottleQueue :: "int \<Rightarrow> ('e, 'v) ThrottleQueue" where
  "newThrottleQueue interval =
     \<lparr>intervalMs = interval, lastCallTime = 0, queue = [], isProcessing = False, timer = None,
      submitted = 0, inFlight = [], dispatched = [], promises = Map.empty\<rparr>"

text \<open>
  \<^verbatim>\<open>processQueue\<close> at time \<open>now\<close> (\<^verbatim>\<open>Date.now()\<close>): the timer is set for
  \<^verbatim>\<open>Math.max(0, lastCallTime + intervalMs - now)\<close> milliseconds from now.
\<close>

definition processQueue :: "int \<Rightarrow> ('e, 'v) ThrottleQueue \<Rightarrow> ('e, 'v) ThrottleQueue" where
  "processQueue now q =
     (if queue q = [] then q\<lparr>isProcessing := False\<rparr>
      else q\<lparr>isProcessing := True,
              timer := Some (now + max 0 (lastCallTime q + intervalMs q - now))\<rparr>)"

text \<open>\<^verbatim>\<open>throttle(fn)\<close> called at time \<open>now\<close>; the promise returned has ticket \<open>submitted q\<close>.\<close>

definition throttle :: "('e + 'v) \<Rightarrow> int \<Rightarrow> ('e, 'v) ThrottleQueue \<Rightarrow> ('e, 'v) ThrottleQueue" where
  "throttle fn now q =
     (let q' = q\<lparr>queue := queue q @ [(submitted q, fn)], submitted := Suc (submitted q)\<rparr>
      in if \<not> isProcessing q' then processQueue now q' else q')"

text \<open>
  The callback of \<^verbatim>\<open>setTimeout\<close>, run at time \<open>now\<close>; a timer does not fire before it is
  due. \<^verbatim>\<open>next()\<close> starts the call and is not awaited. The two readings of
  \<^verbatim>\<open>Date.now()\<close> in one run of the callback (its own and that of \<^verbatim>\<open>processQueue\<close>) are
  taken as equal.
\<close>

definition timerFires :: "int \<Rightarrow> ('e, 'v) ThrottleQueue \<Rightarrow> ('e, 'v) ThrottleQueue" where
  "timerFires now q =
     (case timer q of
        None \<Rightarrow> q
      | Some due \<Rightarrow>
          if now < due then q
          else
            let q1 = q\<lparr>timer := None, lastCallTime := now\<rparr>;
                q2 = (case queue q1 of
                        [] \<Rightarrow> q1
                      | next # rest \<Rightarrow>
                          q1\<lparr>queue := rest,
                             inFlight := inFlight q1 @ [next],
                             dispatched := dispatched q1 @ [fst next]\<rparr>)
            in processQueue now q2)"

text \<open>
  The call with ticket \<open>t\<close>, started earlier, settles: \<^verbatim>\<open>resolve(result)\<close> after
  \<^verbatim>\<open>await fn()\<close>, or \<^verbatim>\<open>reject(err)\<close> in the \<^verbatim>\<open>catch\<close>.
\<close>

definition settles :: "nat \<Rightarrow> ('e, 'v) ThrottleQueue \<Rightarrow> ('e, 'v) ThrottleQueue" where
  "settles t q =
     (case find (\<lambda>c. fst c = t) (inFlight q) of
        None \<Rightarrow> q
      | Some c \<Rightarrow>
          q\<lparr>inFlight := filter (\<lambda>c'. fst c' \<noteq> t) (inFlight q),
            promises := (promises q)(t \<mapsto> snd c)\<rparr>)"

text \<open>What can happen to a queue, and a run of such events from the left.\<close>

datatype ('e, 'v) event = Throttle "'e + 'v" int | TimerFires int | Settles nat

fun step :: "('e, 'v) ThrottleQueue \<Rightarrow> ('e, 'v) event \<Rightarrow> ('e, 'v) ThrottleQueue" where
  "step q (Throttle fn now) = throttle fn now q"
| "step q (TimerFires now) = timerFires now q"
| "step q (Settles t) = settles t q"

definition run :: "('e, 'v) event list \<Rightarrow> ('e, 'v) ThrottleQueue \<Rightarrow> ('e, 'v) ThrottleQueue" where
  "run evs q = foldl step q evs"

text \<open>The calls handed to \<^verbatim>\<open>throttle\<close> in a run, in order: the call of ticket \<open>t\<close> is at \<open>t\<close>.\<close>

fun submittedCalls :: "('e, 'v) event list \<Rightarrow> ('e + 'v) list" where
  "submittedCalls [] = []"
| "submittedCalls (Throttle fn now # evs) = fn # submittedCalls evs"
| "submittedCalls (_ # evs) = submittedCalls evs"

section \<open>Call histories\<close>

text \<open>
  \<open>appends P m\<close>: from any state, the method \<open>m\<close> only adds requests to the history, and
  every request it adds satisfies \<open>P\<close>.
\<close>

definition appends :: "(call \<Rightarrow> bool) \<Rightarrow> 'a action \<Rightarrow> bool" where
  "appends P m \<longleftrightarrow> (\<forall>s. \<exists>new. calls (snd (m s)) = calls s @ new \<and> (\<forall>c \<in> set new. P c))"

section \<open>Invariant of the call governor\<close>

text \<open>
  \<open>governed fns q\<close>: the queue \<open>q\<close> is in a state that the calls \<open>fns\<close>, submitted in this
  order, can lead to. The tickets started and then those still queued count up from 0;
  every queued or running closure holds the call submitted under its ticket; every
  settled promise holds the outcome of the call submitted under its ticket; a timer is
  pending exactly while \<^verbatim>\<open>isProcessing\<close> is set, and whenever a call is queued; every call
  started is running or has settled its promise.
\<close>

definition governed :: "('e + 'v) list \<Rightarrow> ('e, 'v) ThrottleQueue \<Rightarrow> bool" where
  "governed fns q \<longleftrightarrow>
     submitted q = length fns
   \<and> dispatched q @ map fst (queue q) = [0..<length fns]
   \<and> (\<forall>c \<in> set (queue q) \<union> set (inFlight q). fst c < length fns \<and> snd c = fns ! fst c)
   \<and> (\<forall>t out. promises q t = Some out \<longrightarrow> t < length fns \<and> out = fns ! t)
   \<and> (isProcessing q \<longleftrightarrow> timer q \<noteq> None)
   \<and> (queue q \<noteq> [] \<longrightarrow> timer q \<noteq> None)
   \<and> (\<forall>t \<in> set (dispatched q). t \<in> fst ` set (inFlight q) \<or> t \<in> dom (promises q))"

section \<open>Example inputs\<close>

text \<open>
  Stand-ins for the built-ins, defined on the few dates the examples below use.
\<close>

definition exampleBuiltins :: builtins where
  "exampleBuiltins =
     \<lparr>dateToISOString = (\<lambda>d. if d = [] then None else Some (d @ ''T00:00:00.000Z'')),
      momentAddDays = (\<lambda>d n. if d = ''2024-01-01T00:00:00.000Z'' \<and> n = 14
                              then ''2024-01-15T00:00:00.000Z'' else d),
      to_jira = (\<lambda>markdown. markdown),
      toNumber = (\<lambda>text. 10000)\<rparr>"

definition exampleProject :: "string \<Rightarrow> int \<Rightarrow> ProjectConfiguration" where
  "exampleProject nm cap =
     \<lparr>cfg_name = nm,
      github = \<lparr>readToken = ''r'', owner = ''org'', repo = nm, project = ''Planning'',
                startDate = ''2024-01-01T00:00:00.000Z''\<rparr>,
      jira = \<lparr>host = ''jira.example'', projectKey = ''KEY'', writeToken = ''w'',
              component = ''Comp'', globalIdPrefix = ''GH'', sprintBoard = ''Board''\<rparr>,
      issueTypeDefault = ''Task'',
      issueTypeMapping =
        [\<lparr>fromGithubLabel = ''kind/epic'', it_toJira = ''Epic''\<rparr>,
         \<lparr>fromGithubLabel = ''kind/bug'', it_toJira = ''Bug''\<rparr>,
         \<lparr>fromGithubLabel = ''kind/epic'', it_toJira = ''Task''\<rparr>],
      statusTypeMapping =
        [\<lparr>fromGithub = ''Planned'', st_toJira = ''Backlog''\<rparr>,
         \<lparr>fromGithub = ''In Progress'', st_toJira = ''In Progress''\<rparr>,
         \<lparr>fromGithub = ''In Progress'', st_toJira = ''Review''\<rparr>],
      statusTypeDefault = ''Backlog'',
      maxBatchNumberIssues = cap\<rparr>"

definition exampleIssue :: "int \<Rightarrow> string \<Rightarrow> GraphQLSearchIssuesNode" where
  "exampleIssue n updated =
     \<lparr>url = ''https://github.example/org/repo/issues'', number = n, state = ''OPEN'',
      updatedAt = updated, body = ''text'', title = ''An issue'', labels = [],
      milestone = None, projectItems = []\<rparr>"

text \<open>A source that answers each search from a table of pages, by the cursor asked.\<close>

definition answerFrom ::
  "(string option \<Rightarrow> exn + GraphQLSearchIssuesResponse) \<Rightarrow> call list
     \<Rightarrow> exn + GraphQLSearchIssuesResponse" where
  "answerFrom pages h =
     (case rev h of
        GraphqlSearch o' r d c # _ \<Rightarrow> pages c
      | _ \<Rightarrow> Inl (Error ''not a search''))"

text \<open>
  Two remote systems that accept everything: an empty source, and a destination with
  the metadata \<open>exampleProject\<close> asks for, no release, no sprint and no issue.
\<close>

definition quietWorld :: world where
  "quietWorld =
     \<lparr>graphql = (\<lambda>h. Inr \<lparr>endCursor = [], hasNextPage = False, edges = []\<rparr>),
      getCurrentUser = (\<lambda>h. Inr ()),
      getProject = (\<lambda>h. Inr \<lparr>pr_id = ''10000'',
                             pr_issueTypes = Some [Some ''Task'', Some ''Bug'', Some ''Epic'']\<rparr>),
      getProjectComponents = (\<lambda>h. Inr [\<lparr>pc_id = Some ''7'', pc_name = Some ''Comp''\<rparr>]),
      getFields = (\<lambda>h. Inr [\<lparr>f_id = Some ''customfield_1'', f_name = Some ''Story Points''\<rparr>,
                            \<lparr>f_id = Some ''customfield_2'', f_name = Some ''Epic Name''\<rparr>]),
      getProjectVersions = (\<lambda>h. Inr []),
      getAllBoards = (\<lambda>h. Inr (Some [\<lparr>b_id = Some 3, b_name = Some ''Board''\<rparr>])),
      getAllSprints = (\<lambda>h. Inr \<lparr>pg_values = [], isLast = True\<rparr>),
      createSprintApi = (\<lambda>h. Inr ()),
      updateSprintApi = (\<lambda>h. Inr ()),
      createVersion = (\<lambda>h. Inr ()),
      updateVersion = (\<lambda>h. Inr ()),
      searchForIssuesUsingJql = (\<lambda>h. Inr []),
      createIssue = (\<lambda>h. Inr ''KEY-1''),
      createOrUpdateRemoteIssueLink = (\<lambda>h. Inr ()),
      editIssue = (\<lambda>h. Inr ()),
      getIssue = (\<lambda>h. Inr (Some ''Backlog'')),
      getTransitions = (\<lambda>h. Inr (Some [])),
      doTransition = (\<lambda>h. Inr ()),
      moveIssuesToSprintAndRank = (\<lambda>h. Inr ())\<rparr>"

text \<open>A source with two pages of two issues each; the second page is the last.\<close>

definition twoPages :: "string option \<Rightarrow> exn + GraphQLSearchIssuesResponse" where
  "twoPages c =
     (if c = None
      then Inr \<lparr>endCursor = ''c1'', hasNextPage = True,
                edges = [exampleIssue 1 ''2024-01-02T00:00:00Z'', exampleIssue 2 ''2024-01-03T00:00:00Z'']\<rparr>
      else Inr \<lparr>endCursor = ''c2'', hasNextPage = False,
                edges = [exampleIssue 3 ''2024-01-04T00:00:00Z'', exampleIssue 4 ''2024-01-05T00:00:00Z'']\<rparr>)"

definition twoPageWorld :: world where
  "twoPageWorld = quietWorld\<lparr>graphql := answerFrom twoPages\<rparr>"

text \<open>A source whose search fails for the repository \<open>A\<close> and is empty for any other.\<close>

definition failingFetch :: "call list \<Rightarrow> exn + GraphQLSearchIssuesResponse" where
  "failingFetch h =
     (case rev h of
        GraphqlSearch o' r d c # _ \<Rightarrow>
          if r = ''A'' then Inl (HttpException 502 ''Bad Gateway'' ''ERR_BAD_RESPONSE'')
          else Inr \<lparr>endCursor = [], hasNextPage = False, edges = []\<rparr>
      | _ \<Rightarrow> Inl (Error ''not a search''))"

definition failingFetchWorld :: world where
  "failingFetchWorld = quietWorld\<lparr>graphql := failingFetch\<rparr>"

text \<open>
  A destination whose issue search fails with \<open>e\<close> each time it is asked about the global
  id \<open>GH-1\<close>, over the source with two pages.
\<close>

definition failingSearch :: "exn \<Rightarrow> call list \<Rightarrow> exn + string list" where
  "failingSearch e h =
     (case rev h of
        SearchForIssuesUsingJql g k # _ \<Rightarrow> if g = ''GH-1'' then Inl e else Inr []
      | _ \<Rightarrow> Inr [])"

definition failingSearchWorld :: "exn \<Rightarrow> world" where
  "failingSearchWorld e = twoPageWorld\<lparr>searchForIssuesUsingJql := failingSearch e\<rparr>"

text \<open>
  An issue with a closed milestone \<open>v1\<close>, and a destination holding one unreleased
  release of a given name.
\<close>

definition issueWithMilestone :: GraphQLSearchIssuesNode where
  "issueWithMilestone =
     (exampleIssue 1 ''2024-01-02T00:00:00Z'')
       \<lparr>milestone := Some \<lparr>ms_id = ''M_1'', dueOn = None, ms_closed = Some True, ms_title = ''v1''\<rparr>\<rparr>"

definition releaseWorld :: "string \<Rightarrow> world" where
  "releaseWorld nm =
     quietWorld\<lparr>getProjectVersions :=
       (\<lambda>h. Inr [\<lparr>v_id = Some ''10'', v_name = Some nm, v_released = Some False,
                   v_releaseDate = None\<rparr>])\<rparr>"

definition initialisedRepository :: st where
  "initialisedRepository =
     (newSyncRepository [])
       \<lparr>storyPointsFieldId := Some ''customfield_1'', epicNameFieldId := Some ''customfield_2'',
        jproject := Some \<lparr>pr_id = ''10000'', pr_issueTypes = None\<rparr>,
        components := [\<lparr>pc_id = Some ''7'', pc_name = Some ''Comp''\<rparr>]\<rparr>"












text \<open>
  A run of the governor with an interval of one second: a call that will resolve with 7 is
  submitted, the timer fires at once, a call that will reject is submitted, the timer is
  looked at too early, fires when due, and the two calls settle, the second one first.
\<close>

definition exampleEvents :: "(string, nat) event list" where
  "exampleEvents =
     [Throttle (Inr 7) 5000, TimerFires 5000, Throttle (Inl ''boom'') 5010, TimerFires 5500,
      TimerFires 6000, Settles 1, Settles 0]"

section \<open>Properties of the mapping resolution\<close>

lemma issueTypeLoop_first_match:
  "(\<exists>i < length tbl. fromGithubLabel (tbl ! i) \<in> set ls
        \<and> (\<forall>j < i. fromGithubLabel (tbl ! j) \<notin> set ls)
        \<and> issueTypeLoop tbl ls dflt = it_toJira (tbl ! i))
   \<or> ((\<forall>m \<in> set tbl. fromGithubLabel m \<notin> set ls) \<and> issueTypeLoop tbl ls dflt = dflt)"
proof (induction tbl)
  case Nil
  show ?case by simp
next
  case (Cons m ms)
  show ?case
  proof (cases "fromGithubLabel m \<in> set ls")
    case True
    then have "fromGithubLabel ((m # ms) ! 0) \<in> set ls
        \<and> (\<forall>j < 0. fromGithubLabel ((m # ms) ! j) \<notin> set ls)
        \<and> issueTypeLoop (m # ms) ls dflt = it_toJira ((m # ms) ! 0)"
      by simp
    then show ?thesis by blast
  next
    case False
    from Cons.IH show ?thesis
    proof
      assume "\<exists>i < length ms. fromGithubLabel (ms ! i) \<in> set ls
        \<and> (\<forall>j < i. fromGithubLabel (ms ! j) \<notin> set ls)
        \<and> issueTypeLoop ms ls dflt = it_toJira (ms ! i)"
      then obtain i where i: "i < length ms" "fromGithubLabel (ms ! i) \<in> set ls"
        "\<forall>j < i. fromGithubLabel (ms ! j) \<notin> set ls"
        "issueTypeLoop ms ls dflt = it_toJira (ms ! i)"
        by blast
      have before: "\<forall>j < Suc i. fromGithubLabel ((m # ms) ! j) \<notin> set ls"
      proof (intro allI impI)
        fix j assume "j < Suc i"
        then show "fromGithubLabel ((m # ms) ! j) \<notin> set ls"
          using False i(3) by (cases j) auto
      qed
      have "Suc i < length (m # ms) \<and> fromGithubLabel ((m # ms) ! Suc i) \<in> set ls
        \<and> issueTypeLoop (m # ms) ls dflt = it_toJira ((m # ms) ! Suc i)"
        using i False by simp
      with before show ?thesis by blast
    next
      assume "(\<forall>m \<in> set ms. fromGithubLabel m \<notin> set ls) \<and> issueTypeLoop ms ls dflt = dflt"
      with False show ?thesis by simp
    qed
  qed
qed

lemma statusLoop_first_match:
  "(\<exists>i < length tbl. githubStatus = Some (fromGithub (tbl ! i))
        \<and> (\<forall>j < i. githubStatus \<noteq> Some (fromGithub (tbl ! j)))
        \<and> statusLoop tbl githubStatus dflt = st_toJira (tbl ! i))
   \<or> ((\<forall>m \<in> set tbl. githubStatus \<noteq> Some (fromGithub m)) \<and> statusLoop tbl githubStatus dflt = dflt)"
proof (induction tbl)
  case Nil
  show ?case by simp
next
  case (Cons m ms)
  show ?case
  proof (cases "githubStatus = Some (fromGithub m)")
    case True
    then have "githubStatus = Some (fromGithub ((m # ms) ! 0))
        \<and> (\<forall>j < 0. githubStatus \<noteq> Some (fromGithub ((m # ms) ! j)))
        \<and> statusLoop (m # ms) githubStatus dflt = st_toJira ((m # ms) ! 0)"
      by simp
    then show ?thesis by blast
  next
    case False
    from Cons.IH show ?thesis
    proof
      assume "\<exists>i < length ms. githubStatus = Some (fromGithub (ms ! i))
        \<and> (\<forall>j < i. githubStatus \<noteq> Some (fromGithub (ms ! j)))
        \<and> statusLoop ms githubStatus dflt = st_toJira (ms ! i)"
      then obtain i where i: "i < length ms" "githubStatus = Some (fromGithub (ms ! i))"
        "\<forall>j < i. githubStatus \<noteq> Some (fromGithub (ms ! j))"
        "statusLoop ms githubStatus dflt = st_toJira (ms ! i)"
        by blast
      have before: "\<forall>j < Suc i. githubStatus \<noteq> Some (fromGithub ((m # ms) ! j))"
      proof (intro allI impI)
        fix j assume "j < Suc i"
        then show "githubStatus \<noteq> Some (fromGithub ((m # ms) ! j))"
          using False i(3) by (cases j) auto
      qed
      have "Suc i < length (m # ms) \<and> githubStatus = Some (fromGithub ((m # ms) ! Suc i))
        \<and> statusLoop (m # ms) githubStatus dflt = st_toJira ((m # ms) ! Suc i)"
        using i False by simp
      with before show ?thesis by blast
    next
      assume "(\<forall>m \<in> set ms. githubStatus \<noteq> Some (fromGithub m)) \<and> statusLoop ms githubStatus dflt = dflt"
      with False show ?thesis by simp
    qed
  qed
qed


text \<open>
  C6: for every mapping table and every input, the issue-type resolution returns the
  result of the first rule, in table order, whose label is among the labels, and the
  status resolution that of the first rule whose string equals the status; each returns
  the table's default when no rule matches. Both are total functions of the
  configuration and the input: they cannot fail and touch no state.
\<close>

theorem mapping_first_match_or_default:
  "((\<exists>i < length (issueTypeMapping cfg).
        fromGithubLabel (issueTypeMapping cfg ! i) \<in> set ls
        \<and> (\<forall>j < i. fromGithubLabel (issueTypeMapping cfg ! j) \<notin> set ls)
        \<and> getJiraIssueTypeFromGitHubLabels cfg ls = it_toJira (issueTypeMapping cfg ! i))
     \<or> ((\<forall>m \<in> set (issueTypeMapping cfg). fromGithubLabel m \<notin> set ls)
        \<and> getJiraIssueTypeFromGitHubLabels cfg ls = issueTypeDefault cfg))
   \<and> ((\<exists>i < length (statusTypeMapping cfg).
        githubStatus = Some (fromGithub (statusTypeMapping cfg ! i))
        \<and> (\<forall>j < i. githubStatus \<noteq> Some (fromGithub (statusTypeMapping cfg ! j)))
        \<and> getJiraStatusFromGithubProject cfg githubStatus = st_toJira (statusTypeMapping cfg ! i))
     \<or> ((\<forall>m \<in> set (statusTypeMapping cfg). githubStatus \<noteq> Some (fromGithub m))
        \<and> getJiraStatusFromGithubProject cfg githubStatus = statusTypeDefault cfg))"
  unfolding getJiraIssueTypeFromGitHubLabels_def getJiraStatusFromGithubProject_def
  using issueTypeLoop_first_match[of "issueTypeMapping cfg" ls "issueTypeDefault cfg"]
    statusLoop_first_match[of "statusTypeMapping cfg" githubStatus "statusTypeDefault cfg"]
  by blast

theorem mapping_first_match_or_default_witness:
  "getJiraIssueTypeFromGitHubLabels (exampleProject ''P'' 50) [''kind/bug'', ''kind/epic''] = ''Epic''
   \<and> getJiraStatusFromGithubProject (exampleProject ''P'' 50) (Some ''In Progress'') = ''In Progress''"
  using mapping_first_match_or_default[of "exampleProject ''P'' 50" "[''kind/bug'', ''kind/epic'']"
      "Some ''In Progress''"]
  by (simp add: getJiraIssueTypeFromGitHubLabels_def getJiraStatusFromGithubProject_def
      exampleProject_def)

section \<open>Properties of the batch fetcher\<close>

lemma doGet_length:
  "0 < maxBatchNumberIssues cfg \<Longrightarrow>
   doGetIssuesUpdatedAfterBatch fuel w cfg cursor previous s = (Return fetched, s')
   \<Longrightarrow> int (length fetched) \<le> maxBatchNumberIssues cfg"
proof (induction fuel arbitrary: cursor previous s)
  case 0
  then show ?case by simp
next
  case (Suc fuel)
  show ?case
  proof (cases "graphql w (calls s @ [searchCall cfg cursor])")
    case (Inl e)
    with Suc.prems show ?thesis
      by (simp add: andThen_def invoke_def Let_def)
  next
    case (Inr resp)
    let ?all = "(case previous of Some p \<Rightarrow> p @ edges resp | None \<Rightarrow> edges resp)"
    let ?s1 = "s\<lparr>calls := calls s @ [searchCall cfg cursor]\<rparr>"
    show ?thesis
    proof (cases "maxBatchNumberIssues cfg \<le> int (length ?all)")
      case True
      with Suc.prems Inr have "fetched = slice0 ?all (maxBatchNumberIssues cfg)"
        by (simp add: andThen_def invoke_def Let_def ret_def)
      with Suc.prems(1) show ?thesis by (simp add: slice0_def)
    next
      case False
      show ?thesis
      proof (cases "hasNextPage resp")
        case True
        with Suc.prems Inr False
        have "doGetIssuesUpdatedAfterBatch fuel w cfg (Some (endCursor resp)) (Some ?all) ?s1
              = (Return fetched, s')"
          by (simp add: andThen_def invoke_def Let_def)
        from Suc.IH[OF Suc.prems(1) this] show ?thesis .
      next
        case lastPage: False
        with Suc.prems Inr False have "fetched = ?all"
          by (simp add: andThen_def invoke_def Let_def ret_def)
        with False show ?thesis by simp
      qed
    qed
  qed
qed

lemma doGet_stops:
  assumes "graphql w (calls s @ [searchCall cfg cursor]) = Inr resp"
    and "maxBatchNumberIssues cfg
           \<le> int (length ((case previous of Some p \<Rightarrow> p | None \<Rightarrow> []) @ edges resp))"
  shows "doGetIssuesUpdatedAfterBatch (Suc fuel) w cfg cursor previous s
         = (Return (slice0 ((case previous of Some p \<Rightarrow> p | None \<Rightarrow> []) @ edges resp)
                      (maxBatchNumberIssues cfg)),
            s\<lparr>calls := calls s @ [searchCall cfg cursor]\<rparr>)"
  using assms by (cases previous) (simp_all add: andThen_def invoke_def Let_def ret_def)

lemma doGet_returns:
  assumes answers: "\<And>h c. \<exists>resp. graphql w (h @ [searchCall cfg c]) = Inr resp \<and> edges resp \<noteq> []"
    and enough: "maxBatchNumberIssues cfg
                   \<le> int (length (case previous of Some p \<Rightarrow> p | None \<Rightarrow> [])) + int fuel"
    and some: "0 < fuel"
  shows "\<exists>fetched s'. doGetIssuesUpdatedAfterBatch fuel w cfg cursor previous s = (Return fetched, s')"
  using enough some
proof (induction fuel arbitrary: cursor previous s)
  case 0
  then show ?case by simp
next
  case (Suc fuel)
  from answers obtain resp where resp: "graphql w (calls s @ [searchCall cfg cursor]) = Inr resp"
    "edges resp \<noteq> []" by blast
  let ?all = "(case previous of Some p \<Rightarrow> p | None \<Rightarrow> []) @ edges resp"
  let ?s1 = "s\<lparr>calls := calls s @ [searchCall cfg cursor]\<rparr>"
  have all: "(case previous of Some p \<Rightarrow> p @ edges resp | None \<Rightarrow> edges resp) = ?all"
    by (cases previous) simp_all
  show ?case
  proof (cases "maxBatchNumberIssues cfg \<le> int (length ?all)")
    case True
    from doGet_stops[OF resp(1) True] show ?thesis by blast
  next
    case False
    show ?thesis
    proof (cases "hasNextPage resp")
      case lastPage: False
      with resp(1) False all show ?thesis
        by (simp add: andThen_def invoke_def Let_def ret_def)
    next
      case True
      from resp(2) have grown: "length ?all \<ge> Suc (length (case previous of Some p \<Rightarrow> p | None \<Rightarrow> []))"
        by (cases "edges resp") simp_all
      with False Suc.prems(1) have f: "0 < fuel" 
        by (cases fuel) auto
      from grown Suc.prems(1)
      have "maxBatchNumberIssues cfg
              \<le> int (length (case Some ?all of Some p \<Rightarrow> p | None \<Rightarrow> [])) + int fuel"
        by simp
      from Suc.IH[OF this f, of "Some (endCursor resp)" ?s1]
      obtain fetched s' where
        "doGetIssuesUpdatedAfterBatch fuel w cfg (Some (endCursor resp)) (Some ?all) ?s1
         = (Return fetched, s')" by blast
      with resp(1) False True all
      have "doGetIssuesUpdatedAfterBatch (Suc fuel) w cfg cursor previous s = (Return fetched, s')"
        by (simp add: andThen_def invoke_def Let_def)
      then show ?thesis by blast
    qed
  qed
qed

text \<open>
  C7: with a cap \<open>N > 0\<close>, whatever the source answers, a fetch that returns has at most
  \<open>N\<close> records; at the first page after which the accumulated records number \<open>N\<close> or
  more, the fetch returns exactly the first \<open>N\<close> of them, having issued that one query
  and no further one; and against a source that answers every query with a page of at
  least one record, the fetch does return, within \<open>N\<close> queries.
\<close>

theorem batch_cap:
  assumes "0 < maxBatchNumberIssues cfg"
  shows "(doGetIssuesUpdatedAfterBatch fuel w cfg cursor previous s = (Return fetched, s')
            \<longrightarrow> int (length fetched) \<le> maxBatchNumberIssues cfg)
       \<and> (graphql w (calls s @ [searchCall cfg cursor]) = Inr resp
            \<and> maxBatchNumberIssues cfg
                \<le> int (length ((case previous of Some p \<Rightarrow> p | None \<Rightarrow> []) @ edges resp))
            \<longrightarrow> doGetIssuesUpdatedAfterBatch (Suc fuel) w cfg cursor previous s
                  = (Return (take (nat (maxBatchNumberIssues cfg))
                               ((case previous of Some p \<Rightarrow> p | None \<Rightarrow> []) @ edges resp)),
                     s\<lparr>calls := calls s @ [searchCall cfg cursor]\<rparr>)
                \<and> int (length (take (nat (maxBatchNumberIssues cfg))
                                 ((case previous of Some p \<Rightarrow> p | None \<Rightarrow> []) @ edges resp)))
                  = maxBatchNumberIssues cfg)
       \<and> ((\<forall>h c. \<exists>answer. graphql w (h @ [searchCall cfg c]) = Inr answer \<and> edges answer \<noteq> [])
            \<longrightarrow> (\<exists>all s''. doGetIssuesUpdatedAfterBatch (nat (maxBatchNumberIssues cfg)) w cfg
                              None None s = (Return all, s'')))"
proof (intro conjI impI)
  assume "doGetIssuesUpdatedAfterBatch fuel w cfg cursor previous s = (Return fetched, s')"
  with assms show "int (length fetched) \<le> maxBatchNumberIssues cfg"
    by (rule doGet_length)
next
  assume full: "graphql w (calls s @ [searchCall cfg cursor]) = Inr resp
            \<and> maxBatchNumberIssues cfg
                \<le> int (length ((case previous of Some p \<Rightarrow> p | None \<Rightarrow> []) @ edges resp))"
  then show "doGetIssuesUpdatedAfterBatch (Suc fuel) w cfg cursor previous s
                  = (Return (take (nat (maxBatchNumberIssues cfg))
                               ((case previous of Some p \<Rightarrow> p | None \<Rightarrow> []) @ edges resp)),
                     s\<lparr>calls := calls s @ [searchCall cfg cursor]\<rparr>)"
    using assms doGet_stops[of w s cfg cursor resp previous fuel] by (simp add: slice0_def)
next
  assume full: "graphql w (calls s @ [searchCall cfg cursor]) = Inr resp
            \<and> maxBatchNumberIssues cfg
                \<le> int (length ((case previous of Some p \<Rightarrow> p | None \<Rightarrow> []) @ edges resp))"
  then have "nat (maxBatchNumberIssues cfg)
               \<le> length ((case previous of Some p \<Rightarrow> p | None \<Rightarrow> []) @ edges resp)"
    by (simp only: nat_le_iff)
  then have "length (take (nat (maxBatchNumberIssues cfg))
                       ((case previous of Some p \<Rightarrow> p | None \<Rightarrow> []) @ edges resp))
             = nat (maxBatchNumberIssues cfg)"
    by (simp only: length_take min.absorb2)
  with assms show "int (length (take (nat (maxBatchNumberIssues cfg))
                                 ((case previous of Some p \<Rightarrow> p | None \<Rightarrow> []) @ edges resp)))
                  = maxBatchNumberIssues cfg"
    by (simp del: take_append length_append length_take)
next
  assume "\<forall>h c. \<exists>answer. graphql w (h @ [searchCall cfg c]) = Inr answer \<and> edges answer \<noteq> []"
  then have answers: "\<exists>answer. graphql w (h @ [searchCall cfg c]) = Inr answer \<and> edges answer \<noteq> []"
    for h c by blast
  from assms have "maxBatchNumberIssues cfg
      \<le> int (length (case None :: GraphQLSearchIssuesNode list option of Some p \<Rightarrow> p | None \<Rightarrow> []))
        + int (nat (maxBatchNumberIssues cfg))"
    and "0 < nat (maxBatchNumberIssues cfg)"
    by simp_all
  from doGet_returns[of w cfg None "nat (maxBatchNumberIssues cfg)" None s, OF answers this]
  show "\<exists>all s''. doGetIssuesUpdatedAfterBatch (nat (maxBatchNumberIssues cfg)) w cfg
                              None None s = (Return all, s'')" .
qed

theorem batch_cap_witness:
  "0 < maxBatchNumberIssues (exampleProject ''P'' 3)
   \<and> doGetIssuesUpdatedAfterBatch (Suc (Suc 0)) twoPageWorld (exampleProject ''P'' 3) None None
        (newSyncRepository [])
      = (Return [exampleIssue 1 ''2024-01-02T00:00:00Z'', exampleIssue 2 ''2024-01-03T00:00:00Z'',
                 exampleIssue 3 ''2024-01-04T00:00:00Z''],
         newSyncRepository [searchCall (exampleProject ''P'' 3) None,
                            searchCall (exampleProject ''P'' 3) (Some ''c1'')])
   \<and> int (length [exampleIssue 1 ''2024-01-02T00:00:00Z'', exampleIssue 2 ''2024-01-03T00:00:00Z'',
                   exampleIssue 3 ''2024-01-04T00:00:00Z'']) \<le> 3
   \<and> doGetIssuesUpdatedAfterBatch (Suc 0) twoPageWorld (exampleProject ''P'' 3) (Some ''c1'')
        (Some [exampleIssue 1 ''2024-01-02T00:00:00Z'', exampleIssue 2 ''2024-01-03T00:00:00Z''])
        (newSyncRepository [searchCall (exampleProject ''P'' 3) None])
      = (Return [exampleIssue 1 ''2024-01-02T00:00:00Z'', exampleIssue 2 ''2024-01-03T00:00:00Z'',
                 exampleIssue 3 ''2024-01-04T00:00:00Z''],
         newSyncRepository [searchCall (exampleProject ''P'' 3) None,
                            searchCall (exampleProject ''P'' 3) (Some ''c1'')])
   \<and> (\<exists>all s''. doGetIssuesUpdatedAfterBatch (nat 3) twoPageWorld (exampleProject ''P'' 3) None None
                    (newSyncRepository []) = (Return all, s''))"
proof -
  let ?cfg = "exampleProject ''P'' 3"
  let ?three = "[exampleIssue 1 ''2024-01-02T00:00:00Z'', exampleIssue 2 ''2024-01-03T00:00:00Z'',
                 exampleIssue 3 ''2024-01-04T00:00:00Z'']"
  let ?s1 = "newSyncRepository [searchCall ?cfg None]"
  let ?s2 = "newSyncRepository [searchCall ?cfg None, searchCall ?cfg (Some ''c1'')]"
  let ?page2 = "\<lparr>endCursor = ''c2'', hasNextPage = False,
                edges = [exampleIssue 3 ''2024-01-04T00:00:00Z'', exampleIssue 4 ''2024-01-05T00:00:00Z'']\<rparr>"
  have cap: "0 < maxBatchNumberIssues ?cfg"
    by (simp add: exampleProject_def)
  have whole: "doGetIssuesUpdatedAfterBatch (Suc (Suc 0)) twoPageWorld ?cfg None None
                 (newSyncRepository []) = (Return ?three, ?s2)"
    by (simp add: andThen_def invoke_def Let_def ret_def twoPageWorld_def quietWorld_def
        answerFrom_def twoPages_def exampleProject_def searchCall_def newSyncRepository_def
        slice0_def)
  have answer: "graphql twoPageWorld (calls ?s1 @ [searchCall ?cfg (Some ''c1'')]) = Inr ?page2
       \<and> maxBatchNumberIssues ?cfg
           \<le> int (length ((case Some [exampleIssue 1 ''2024-01-02T00:00:00Z'',
                                       exampleIssue 2 ''2024-01-03T00:00:00Z''] of
                              Some p \<Rightarrow> p | None \<Rightarrow> []) @ edges ?page2))"
    by (simp add: twoPageWorld_def quietWorld_def answerFrom_def twoPages_def exampleProject_def
        searchCall_def newSyncRepository_def)
  have answers: "\<forall>h c. \<exists>answer. graphql twoPageWorld (h @ [searchCall ?cfg c]) = Inr answer
                   \<and> edges answer \<noteq> []"
    by (simp add: twoPageWorld_def quietWorld_def answerFrom_def twoPages_def searchCall_def)
  from batch_cap[OF cap, where fuel = "Suc (Suc 0)" and w = twoPageWorld and cursor = None
      and previous = None and s = "newSyncRepository []" and fetched = ?three and s' = ?s2] whole
  have bounded: "int (length ?three) \<le> 3"
    by (simp add: exampleProject_def)
  from batch_cap[OF cap, where fuel = 0 and w = twoPageWorld and cursor = "Some ''c1''"
      and previous = "Some [exampleIssue 1 ''2024-01-02T00:00:00Z'',
                            exampleIssue 2 ''2024-01-03T00:00:00Z'']"
      and s = ?s1 and resp = ?page2] answer
  have stops: "doGetIssuesUpdatedAfterBatch (Suc 0) twoPageWorld ?cfg (Some ''c1'')
        (Some [exampleIssue 1 ''2024-01-02T00:00:00Z'', exampleIssue 2 ''2024-01-03T00:00:00Z''])
        ?s1 = (Return ?three, ?s2)"
    by (simp add: exampleProject_def newSyncRepository_def)
  from batch_cap[OF cap, where w = twoPageWorld and s = "newSyncRepository []"] answers
  have returns: "\<exists>all s''. doGetIssuesUpdatedAfterBatch (nat 3) twoPageWorld ?cfg None None
                    (newSyncRepository []) = (Return all, s'')"
    by (simp add: exampleProject_def)
  from cap whole bounded stops returns show ?thesis by blast
qed

text \<open>
  C1 (evaluation at a failing input): with the cap set to 0 and a source holding two
  pages of two records, the fetch issues one query and returns no record at all, since
  \<^verbatim>\<open>length >= 0\<close> holds at once and \<^verbatim>\<open>slice(0, 0)\<close> is empty.
\<close>

theorem zero_cap_returns_nothing:
  "doGetIssuesUpdatedAfterBatch (Suc (Suc (Suc 0))) twoPageWorld (exampleProject ''P'' 0) None None
     (newSyncRepository [])
   = (Return [], newSyncRepository [searchCall (exampleProject ''P'' 0) None])"
  by (simp add: andThen_def invoke_def Let_def ret_def twoPageWorld_def quietWorld_def
      answerFrom_def twoPages_def exampleProject_def searchCall_def newSyncRepository_def
      slice0_def)

section \<open>Properties of the watermark\<close>

lemma getIssuesUpdatedAfter_Return:
  assumes "getIssuesUpdatedAfter fuel w cfg s = (Return r, s')"
  shows "doGetIssuesUpdatedAfterBatch fuel w cfg None None s = (Return (issues r), s')
       \<and> afterDate r = (if issues r = [] then startDate (github cfg) else updatedAt (last (issues r)))"
proof (cases "doGetIssuesUpdatedAfterBatch fuel w cfg None None s")
  case (Pair res s1)
  with assms show ?thesis
    by (cases res) (auto simp: getIssuesUpdatedAfter_def andThen_def ret_def Let_def)
qed

lemma sorted_le_last:
  fixes xs :: "'a::linorder list"
  shows "sorted xs \<Longrightarrow> y \<in> set xs \<Longrightarrow> y \<le> last xs"
  by (induction xs) auto

lemma sorted_Max_last:
  fixes xs :: "'a::linorder list"
  assumes "sorted xs" "xs \<noteq> []"
  shows "Max (set xs) = last xs"
proof (rule Max_eqI)
  show "finite (set xs)" by simp
  show "last xs \<in> set xs" using assms(2) by simp
  fix y assume "y \<in> set xs"
  then show "y \<le> last xs" by (rule sorted_le_last[OF assms(1)])
qed

text \<open>
  C4: let \<open>t\<close> read a timestamp as a point of a linear order (the instant it denotes, or
  the text itself compared as text). If the fetch returns records ascending in
  \<open>updatedAt\<close>, none earlier than the input watermark \<^verbatim>\<open>startDate\<close>, then the watermark
  produced (\<^verbatim>\<open>afterDate\<close>) is not earlier than the input watermark and, when records
  were fetched, is the latest \<open>updatedAt\<close> among them; when nothing was fetched it is the
  input watermark itself.
\<close>

theorem watermark_moves_forward:
  fixes t :: "string \<Rightarrow> 'a::linorder"
  assumes fetched: "getIssuesUpdatedAfter fuel w cfg s = (Return r, s')"
    and ascending: "sorted (map (\<lambda>i. t (updatedAt i)) (issues r))"
    and after: "\<forall>i \<in> set (issues r). t (startDate (github cfg)) \<le> t (updatedAt i)"
  shows "t (startDate (github cfg)) \<le> t (afterDate r)
       \<and> (issues r \<noteq> [] \<longrightarrow> t (afterDate r) = Max (set (map (\<lambda>i. t (updatedAt i)) (issues r))))
       \<and> (issues r = [] \<longrightarrow> afterDate r = startDate (github cfg))"
proof (cases "issues r = []")
  case True
  with getIssuesUpdatedAfter_Return[OF fetched] show ?thesis by simp
next
  case False
  with getIssuesUpdatedAfter_Return[OF fetched]
  have a: "afterDate r = updatedAt (last (issues r))" by simp
  have "last (issues r) \<in> set (issues r)" using False by simp
  with after have lower: "t (startDate (github cfg)) \<le> t (afterDate r)" by (simp add: a)
  have "map (\<lambda>i. t (updatedAt i)) (issues r) \<noteq> []" using False by simp
  from sorted_Max_last[OF ascending this]
  have "Max (set (map (\<lambda>i. t (updatedAt i)) (issues r))) = t (afterDate r)"
    using False by (simp add: a last_map)
  with lower False show ?thesis by simp
qed

theorem watermark_moves_forward_witness:
  "getIssuesUpdatedAfter (Suc (Suc 0)) twoPageWorld (exampleProject ''P'' 3) (newSyncRepository [])
     = (Return \<lparr>ua_owner = ''org'', ua_repo = ''P'', afterDate = ''2024-01-04T00:00:00Z'',
          issues = [exampleIssue 1 ''2024-01-02T00:00:00Z'', exampleIssue 2 ''2024-01-03T00:00:00Z'',
                    exampleIssue 3 ''2024-01-04T00:00:00Z'']\<rparr>,
        newSyncRepository [searchCall (exampleProject ''P'' 3) None,
                           searchCall (exampleProject ''P'' 3) (Some ''c1'')])
   \<and> ''2024-01-01T00:00:00.000Z'' \<le> ''2024-01-04T00:00:00Z''
   \<and> ''2024-01-04T00:00:00Z''
       = Max {''2024-01-02T00:00:00Z'', ''2024-01-03T00:00:00Z'', ''2024-01-04T00:00:00Z''}
   \<and> getIssuesUpdatedAfter (Suc 0) quietWorld (exampleProject ''P'' 3) (newSyncRepository [])
     = (Return \<lparr>ua_owner = ''org'', ua_repo = ''P'', afterDate = ''2024-01-01T00:00:00.000Z'',
          issues = []\<rparr>,
        newSyncRepository [searchCall (exampleProject ''P'' 3) None])"
proof -
  let ?r = "\<lparr>ua_owner = ''org'', ua_repo = ''P'', afterDate = ''2024-01-04T00:00:00Z'',
          issues = [exampleIssue 1 ''2024-01-02T00:00:00Z'', exampleIssue 2 ''2024-01-03T00:00:00Z'',
                    exampleIssue 3 ''2024-01-04T00:00:00Z'']\<rparr>"
  have fetch: "getIssuesUpdatedAfter (Suc (Suc 0)) twoPageWorld (exampleProject ''P'' 3)
                 (newSyncRepository [])
     = (Return ?r,
        newSyncRepository [searchCall (exampleProject ''P'' 3) None,
                           searchCall (exampleProject ''P'' 3) (Some ''c1'')])"
    by (simp add: getIssuesUpdatedAfter_def andThen_def invoke_def Let_def ret_def twoPageWorld_def
        quietWorld_def answerFrom_def twoPages_def exampleProject_def searchCall_def
        newSyncRepository_def slice0_def exampleIssue_def)
  have empty: "getIssuesUpdatedAfter (Suc 0) quietWorld (exampleProject ''P'' 3) (newSyncRepository [])
     = (Return \<lparr>ua_owner = ''org'', ua_repo = ''P'', afterDate = ''2024-01-01T00:00:00.000Z'',
          issues = []\<rparr>,
        newSyncRepository [searchCall (exampleProject ''P'' 3) None])"
    by (simp add: getIssuesUpdatedAfter_def andThen_def invoke_def Let_def ret_def
        quietWorld_def exampleProject_def searchCall_def newSyncRepository_def slice0_def)
  have ascending: "sorted (map (\<lambda>i. updatedAt i) (issues ?r))"
    by (simp add: exampleIssue_def)
  have after: "\<forall>i \<in> set (issues ?r). startDate (github (exampleProject ''P'' 3)) \<le> updatedAt i"
    by (simp add: exampleIssue_def exampleProject_def)
  from watermark_moves_forward[of _ _ _ _ ?r _ "\<lambda>d. d", OF fetch ascending after] fetch empty
  show ?thesis by (simp add: exampleIssue_def exampleProject_def)
qed

section \<open>Properties of the orchestrator\<close>

lemma syncLoop_stops:
  assumes "syncLoop fuel env w before results h = (Return finished, h')"
    and "fst (start fuel env w failing (newSyncRepository h')) = Throw e"
  shows "syncLoop fuel env w (before @ failing # rest) results h
         = (Throw e, calls (snd (start fuel env w failing (newSyncRepository h'))))"
  using assms
proof (induction before arbitrary: results h)
  case Nil
  then show ?case
    by (cases "start fuel env w failing (newSyncRepository h')") simp
next
  case (Cons pc before)
  obtain r s where pass: "start fuel env w pc (newSyncRepository h) = (r, s)"
    by (cases "start fuel env w pc (newSyncRepository h)")
  show ?case
  proof (cases r)
    case (Return afterDate)
    with pass Cons.prems(1)
    have "syncLoop fuel env w before
            (results @ [\<lparr>syncProjectName = cfg_name pc, res_afterDate = afterDate\<rparr>]) (calls s)
          = (Return finished, h')"
      by simp
    from Cons.IH[OF this Cons.prems(2)] pass Return show ?thesis by simp
  next
    case (Throw e')
    with pass Cons.prems(1) show ?thesis by simp
  next
    case OutOfFuel
    with pass Cons.prems(1) show ?thesis by simp
  qed
qed

text \<open>
  C2 (counterexample): two projects \<open>A\<close> and \<open>B\<close>, the source failing for \<open>A\<close> only. The run
  ends with the error of \<open>A\<close>'s fetch, the last request of the whole run; nothing is
  asked on behalf of \<open>B\<close> and no watermark is returned, although \<open>B\<close> alone passes.
\<close>

theorem remaining_projects_not_attempted:
  "Sync_start (Suc (Suc 0)) exampleBuiltins failingFetchWorld
      [exampleProject ''A'' 50, exampleProject ''B'' 50]
     = (Throw (HttpException 502 ''Bad Gateway'' ''ERR_BAD_RESPONSE''),
        [GetCurrentUser, GetProject ''KEY'', GetProjectComponents ''KEY'', GetFields,
         GraphqlSearch ''org'' ''A'' ''2024-01-01T00:00:00.000Z'' None])
   \<and> fst (Sync_start (Suc (Suc 0)) exampleBuiltins failingFetchWorld [exampleProject ''B'' 50])
     = Return [\<lparr>syncProjectName = ''B'', res_afterDate = ''2024-01-01T00:00:00.000Z''\<rparr>]"
  by code_simp

text \<open>
  C2 (amended): if the projects before one all pass and that one's pass throws, then
  \<^verbatim>\<open>Sync.start\<close> throws the same error whatever projects remain: the last request of the
  run is the last one of the failed pass, so no remaining project is attempted, and no
  watermark is returned, not even for the projects that passed.
\<close>

theorem sync_stops_at_first_failure:
  assumes "Sync_start fuel env w before = (Return finished, h)"
    and "fst (start fuel env w failing (newSyncRepository h)) = Throw e"
  shows "Sync_start fuel env w (before @ failing # rest)
         = (Throw e, calls (snd (start fuel env w failing (newSyncRepository h))))"
  using assms unfolding Sync_start_def by (rule syncLoop_stops)

theorem sync_stops_at_first_failure_witness:
  "Sync_start (Suc (Suc 0)) exampleBuiltins failingFetchWorld
      ([exampleProject ''B'' 50] @ exampleProject ''A'' 50 # [exampleProject ''C'' 50])
   = (Throw (HttpException 502 ''Bad Gateway'' ''ERR_BAD_RESPONSE''),
      [GetCurrentUser, GetProject ''KEY'', GetProjectComponents ''KEY'', GetFields,
       GraphqlSearch ''org'' ''B'' ''2024-01-01T00:00:00.000Z'' None,
       GetProjectVersions ''KEY'', GetProjectVersions ''KEY'',
       GetAllBoards ''KEY'', GetAllSprints 3 0 50, GetAllBoards ''KEY'', GetAllSprints 3 0 50,
       GetCurrentUser, GetProject ''KEY'', GetProjectComponents ''KEY'', GetFields,
       GraphqlSearch ''org'' ''A'' ''2024-01-01T00:00:00.000Z'' None])"
proof -
  let ?h = "[GetCurrentUser, GetProject ''KEY'', GetProjectComponents ''KEY'', GetFields,
       GraphqlSearch ''org'' ''B'' ''2024-01-01T00:00:00.000Z'' None,
       GetProjectVersions ''KEY'', GetProjectVersions ''KEY'',
       GetAllBoards ''KEY'', GetAllSprints 3 0 50, GetAllBoards ''KEY'', GetAllSprints 3 0 50]"
  have passed: "Sync_start (Suc (Suc 0)) exampleBuiltins failingFetchWorld [exampleProject ''B'' 50]
      = (Return [\<lparr>syncProjectName = ''B'', res_afterDate = ''2024-01-01T00:00:00.000Z''\<rparr>], ?h)"
    by code_simp
  have failed: "fst (start (Suc (Suc 0)) exampleBuiltins failingFetchWorld (exampleProject ''A'' 50)
                       (newSyncRepository ?h))
      = Throw (HttpException 502 ''Bad Gateway'' ''ERR_BAD_RESPONSE'')"
    by code_simp
  have history: "calls (snd (start (Suc (Suc 0)) exampleBuiltins failingFetchWorld
                               (exampleProject ''A'' 50) (newSyncRepository ?h)))
      = ?h @ [GetCurrentUser, GetProject ''KEY'', GetProjectComponents ''KEY'', GetFields,
              GraphqlSearch ''org'' ''A'' ''2024-01-01T00:00:00.000Z'' None]"
    by code_simp
  from sync_stops_at_first_failure[OF passed failed, of "[exampleProject ''C'' 50]"] history
  show ?thesis by simp
qed

section \<open>Evaluations of the upsert loop and of the release reconciliation\<close>

text \<open>
  C3 (evaluation at a failing input): two issues are fetched and the destination answers
  every search about the first with 401 Unauthorized (\<^verbatim>\<open>ERR_BAD_REQUEST\<close>). The write
  is tried, the 30 s pause is taken, the write is tried once more, and its failure leaves
  \<^verbatim>\<open>start\<close> as an exception: nothing is asked about the second issue. With any other
  failure of the same write (here a 500), the first issue is skipped and the second one
  is written.
\<close>

theorem retry_failure_aborts_batch:
  "fst (start (Suc (Suc 0)) exampleBuiltins
          (failingSearchWorld (HttpException 401 ''Unauthorized'' ''ERR_BAD_REQUEST''))
          (exampleProject ''P'' 2) (newSyncRepository []))
     = Throw (HttpException 401 ''Unauthorized'' ''ERR_BAD_REQUEST'')
   \<and> drop 11 (calls (snd (start (Suc (Suc 0)) exampleBuiltins
          (failingSearchWorld (HttpException 401 ''Unauthorized'' ''ERR_BAD_REQUEST''))
          (exampleProject ''P'' 2) (newSyncRepository []))))
     = [SearchForIssuesUsingJql ''GH-1'' ''KEY'', SetTimeout 30000,
        SearchForIssuesUsingJql ''GH-1'' ''KEY'']
   \<and> fst (start (Suc (Suc 0)) exampleBuiltins
          (failingSearchWorld (HttpException 500 ''Internal Server Error'' ''ERR_BAD_RESPONSE''))
          (exampleProject ''P'' 2) (newSyncRepository []))
     = Return ''2024-01-03T00:00:00Z''
   \<and> take 2 (drop 11 (calls (snd (start (Suc (Suc 0)) exampleBuiltins
          (failingSearchWorld (HttpException 500 ''Internal Server Error'' ''ERR_BAD_RESPONSE''))
          (exampleProject ''P'' 2) (newSyncRepository [])))))
     = [SearchForIssuesUsingJql ''GH-1'' ''KEY'', SearchForIssuesUsingJql ''GH-2'' ''KEY'']"
  by code_simp

text \<open>
  C5 (evaluation at a failing input): the project is \<open>P\<close>, one issue carries the closed
  milestone \<open>v1\<close>, and the destination holds the release \<open>P v1\<close>, unreleased. The released
  flag differs, yet the only requests are the two listings: no update is issued, since
  the update loop looks the destination release up by the title without the prefix.
  When the destination release is named \<open>v1\<close>, it is that one which is updated (and
  \<open>P v1\<close> is created besides).
\<close>

theorem namespaced_release_not_updated:
  "calls (snd (syncReleases exampleBuiltins (releaseWorld ''P v1'') (exampleProject ''P'' 50)
                 [issueWithMilestone] initialisedRepository))
     = [GetProjectVersions ''KEY'', GetProjectVersions ''KEY'']
   \<and> fst (syncReleases exampleBuiltins (releaseWorld ''P v1'') (exampleProject ''P'' 50)
                 [issueWithMilestone] initialisedRepository)
     = Return ()
   \<and> calls (snd (syncReleases exampleBuiltins (releaseWorld ''v1'') (exampleProject ''P'' 50)
                 [issueWithMilestone] initialisedRepository))
     = [GetProjectVersions ''KEY'',
        CreateVersionCall \<lparr>cv_projectId = 10000, cv_name = ''P v1'', cv_released = True,
                            cv_releaseDate = None\<rparr>,
        UpdateVersionCall \<lparr>ur_id = ''10'', ur_name = ''v1'', ur_released = True,
                            ur_releaseDate = None\<rparr>,
        GetProjectVersions ''KEY'']"
  by code_simp

section \<open>Reasoning about the requests a method adds\<close>




lemma appends_modify: "(\<And>s. calls (f s) = calls s) \<Longrightarrow> appends P (modify f)"
  by (simp add: appends_def modify_def)












lemma appends_mono: "appends P m \<Longrightarrow> (\<And>c. P c \<Longrightarrow> Q c) \<Longrightarrow> appends Q m"
  unfolding appends_def by blast







section \<open>Properties of the sprint reconciliation\<close>

lemma in_withoutDuplicates:
  assumes "x \<in> set (withoutDuplicates key xs)"
  shows "\<exists>i < length xs. x = xs ! i \<and> findIndex (\<lambda>m2. key m2 = key x) xs = int i"
proof -
  from assms obtain p where p: "p \<in> set (enumerate 0 xs)" "snd p = x"
    "findIndex (\<lambda>m2. key m2 = key (snd p)) xs = int (fst p)"
    by (auto simp: withoutDuplicates_def)
  from p(1) have "fst p < length xs" "snd p = xs ! fst p"
    by (simp_all add: in_set_enumerate_eq)
  with p show ?thesis by auto
qed

lemma withoutDuplicates_subset: "x \<in> set (withoutDuplicates key xs) \<Longrightarrow> x \<in> set xs"
  using in_withoutDuplicates[of x key xs] by auto















section \<open>Properties of the call governor\<close>

lemma governed_init: "governed [] (newThrottleQueue interval)"
  by (simp add: governed_def newThrottleQueue_def)

lemma throttle_fields:
  "queue (throttle fn now q) = queue q @ [(submitted q, fn)]"
  "submitted (throttle fn now q) = Suc (submitted q)"
  "inFlight (throttle fn now q) = inFlight q"
  "dispatched (throttle fn now q) = dispatched q"
  "promises (throttle fn now q) = promises q"
  "isProcessing (throttle fn now q) = True"
  "timer (throttle fn now q)
     = (if isProcessing q then timer q
        else Some (now + max 0 (lastCallTime q + intervalMs q - now)))"
  by (simp_all add: throttle_def processQueue_def Let_def)

lemma governed_throttle:
  assumes g: "governed fns q"
  shows "governed (fns @ [fn]) (throttle fn now q)"
  unfolding governed_def throttle_fields
proof (intro conjI)
  from g have n: "submitted q = length fns" by (simp add: governed_def)
  show "Suc (submitted q) = length (fns @ [fn])" using n by simp
  from g have "dispatched q @ map fst (queue q) = [0..<length fns]" by (simp add: governed_def)
  then show "dispatched q @ map fst (queue q @ [(submitted q, fn)]) = [0..<length (fns @ [fn])]"
    using n by simp
  from g have old: "\<forall>c \<in> set (queue q) \<union> set (inFlight q). fst c < length fns \<and> snd c = fns ! fst c"
    by (simp add: governed_def)
  show "\<forall>c \<in> set (queue q @ [(submitted q, fn)]) \<union> set (inFlight q).
          fst c < length (fns @ [fn]) \<and> snd c = (fns @ [fn]) ! fst c"
  proof
    fix c assume "c \<in> set (queue q @ [(submitted q, fn)]) \<union> set (inFlight q)"
    then consider "c = (submitted q, fn)" | "c \<in> set (queue q) \<union> set (inFlight q)" by auto
    then show "fst c < length (fns @ [fn]) \<and> snd c = (fns @ [fn]) ! fst c"
    proof cases
      case 1
      then show ?thesis using n by simp
    next
      case 2
      with old have "fst c < length fns" "snd c = fns ! fst c" by blast+
      then show ?thesis by (simp add: nth_append)
    qed
  qed
  from g have settled: "\<forall>t out. promises q t = Some out \<longrightarrow> t < length fns \<and> out = fns ! t"
    by (simp add: governed_def)
  show "\<forall>t out. promises q t = Some out \<longrightarrow> t < length (fns @ [fn]) \<and> out = (fns @ [fn]) ! t"
  proof (intro allI impI)
    fix t out assume "promises q t = Some out"
    with settled have "t < length fns" "out = fns ! t" by blast+
    then show "t < length (fns @ [fn]) \<and> out = (fns @ [fn]) ! t" by (simp add: nth_append)
  qed
  from g have p: "isProcessing q \<longleftrightarrow> timer q \<noteq> None" by (simp add: governed_def)
  then show "True \<longleftrightarrow> (if isProcessing q then timer q
        else Some (now + max 0 (lastCallTime q + intervalMs q - now))) \<noteq> None"
    by simp
  from p show "queue q @ [(submitted q, fn)] \<noteq> [] \<longrightarrow> (if isProcessing q then timer q
        else Some (now + max 0 (lastCallTime q + intervalMs q - now))) \<noteq> None"
    by simp
  from g show "\<forall>t \<in> set (dispatched q). t \<in> fst ` set (inFlight q) \<or> t \<in> dom (promises q)"
    by (simp add: governed_def)
qed


lemma timerFires_not_due:
  "timer q = None \<or> (\<exists>due. timer q = Some due \<and> now < due) \<Longrightarrow> timerFires now q = q"
  by (auto simp: timerFires_def)

lemma timerFires_idle:
  assumes "timer q = Some due" "\<not> now < due" "queue q = []"
  shows "queue (timerFires now q) = []"
    "submitted (timerFires now q) = submitted q"
    "inFlight (timerFires now q) = inFlight q"
    "dispatched (timerFires now q) = dispatched q"
    "promises (timerFires now q) = promises q"
    "isProcessing (timerFires now q) = False"
    "timer (timerFires now q) = None"
  using assms by (simp_all add: timerFires_def processQueue_def Let_def)

lemma timerFires_next:
  assumes "timer q = Some due" "\<not> now < due" "queue q = c # rest"
  shows "queue (timerFires now q) = rest"
    "submitted (timerFires now q) = submitted q"
    "inFlight (timerFires now q) = inFlight q @ [c]"
    "dispatched (timerFires now q) = dispatched q @ [fst c]"
    "promises (timerFires now q) = promises q"
    "isProcessing (timerFires now q) = (rest \<noteq> [])"
    "timer (timerFires now q)
       = (if rest = [] then None else Some (now + max 0 (now + intervalMs q - now)))"
  using assms by (simp_all add: timerFires_def processQueue_def Let_def)

lemma governed_timerFires:
  assumes g: "governed fns q"
  shows "governed fns (timerFires now q)"
proof (cases "timer q = None \<or> (\<exists>due. timer q = Some due \<and> now < due)")
  case True
  with g show ?thesis by (simp add: timerFires_not_due)
next
  case False
  then obtain due where due: "timer q = Some due" "\<not> now < due" by auto
  show ?thesis
  proof (cases "queue q")
    case Nil
    note f = timerFires_idle[OF due Nil]
    from g Nil show ?thesis
      unfolding governed_def f by simp
  next
    case (Cons c rest)
    note f = timerFires_next[OF due Cons]
    show ?thesis
      unfolding governed_def f
    proof (intro conjI)
      from g show "submitted q = length fns" by (simp add: governed_def)
      from g Cons show "(dispatched q @ [fst c]) @ map fst rest = [0..<length fns]"
        by (simp add: governed_def)
      from g Cons show "\<forall>c' \<in> set rest \<union> set (inFlight q @ [c]).
              fst c' < length fns \<and> snd c' = fns ! fst c'"
        by (simp add: governed_def)
      from g show "\<forall>t out. promises q t = Some out \<longrightarrow> t < length fns \<and> out = fns ! t"
        by (simp add: governed_def)
      show "(rest \<noteq> []) \<longleftrightarrow> (if rest = [] then None
               else Some (now + max 0 (now + intervalMs q - now))) \<noteq> None"
        by simp
      show "rest \<noteq> [] \<longrightarrow> (if rest = [] then None
               else Some (now + max 0 (now + intervalMs q - now))) \<noteq> None"
        by simp
      from g have "\<forall>t \<in> set (dispatched q). t \<in> fst ` set (inFlight q) \<or> t \<in> dom (promises q)"
        by (simp add: governed_def)
      then show "\<forall>t \<in> set (dispatched q @ [fst c]).
              t \<in> fst ` set (inFlight q @ [c]) \<or> t \<in> dom (promises q)"
        by auto
    qed
  qed
qed

lemma settles_absent:
  "find (\<lambda>c. fst c = t) (inFlight q) = None \<Longrightarrow> settles t q = q"
  by (simp add: settles_def)

lemma settles_present:
  assumes "find (\<lambda>c. fst c = t) (inFlight q) = Some c"
  shows "queue (settles t q) = queue q"
    "submitted (settles t q) = submitted q"
    "inFlight (settles t q) = filter (\<lambda>c'. fst c' \<noteq> t) (inFlight q)"
    "dispatched (settles t q) = dispatched q"
    "promises (settles t q) = (promises q)(t \<mapsto> snd c)"
    "isProcessing (settles t q) = isProcessing q"
    "timer (settles t q) = timer q"
  using assms by (simp_all add: settles_def)

lemma governed_settles:
  assumes g: "governed fns q"
  shows "governed fns (settles t q)"
proof (cases "find (\<lambda>c. fst c = t) (inFlight q)")
  case None
  with g show ?thesis by (simp add: settles_absent)
next
  case (Some c)
  then have c: "c \<in> set (inFlight q)" "fst c = t"
    by (auto simp: find_Some_iff)
  note f = settles_present[OF Some]
  from g have old: "\<forall>c \<in> set (queue q) \<union> set (inFlight q). fst c < length fns \<and> snd c = fns ! fst c"
    by (simp add: governed_def)
  with c have mine: "t < length fns" "snd c = fns ! t" by auto
  show ?thesis
    unfolding governed_def f
  proof (intro conjI)
    from g show "submitted q = length fns" by (simp add: governed_def)
    from g show "dispatched q @ map fst (queue q) = [0..<length fns]" by (simp add: governed_def)
    from old show "\<forall>c' \<in> set (queue q) \<union> set (filter (\<lambda>c'. fst c' \<noteq> t) (inFlight q)).
            fst c' < length fns \<and> snd c' = fns ! fst c'"
      by auto
    from g have "\<forall>t out. promises q t = Some out \<longrightarrow> t < length fns \<and> out = fns ! t"
      by (simp add: governed_def)
    with mine show "\<forall>t' out. ((promises q)(t \<mapsto> snd c)) t' = Some out
                     \<longrightarrow> t' < length fns \<and> out = fns ! t'"
      by simp
    from g show "isProcessing q \<longleftrightarrow> timer q \<noteq> None" by (simp add: governed_def)
    from g show "queue q \<noteq> [] \<longrightarrow> timer q \<noteq> None" by (simp add: governed_def)
    from g have "\<forall>t \<in> set (dispatched q). t \<in> fst ` set (inFlight q) \<or> t \<in> dom (promises q)"
      by (simp add: governed_def)
    then show "\<forall>t' \<in> set (dispatched q).
            t' \<in> fst ` set (filter (\<lambda>c'. fst c' \<noteq> t) (inFlight q))
          \<or> t' \<in> dom ((promises q)(t \<mapsto> snd c))"
      by force
  qed
qed

lemma run_Cons: "run (e # evs) q = run evs (step q e)"
  by (simp add: run_def)

lemma run_append: "run (evs @ later) q = run later (run evs q)"
  by (simp add: run_def)

lemma governed_run:
  "governed fns q \<Longrightarrow> governed (fns @ submittedCalls evs) (run evs q)"
proof (induction evs arbitrary: fns q)
  case Nil
  then show ?case by (simp add: run_def)
next
  case (Cons e evs)
  show ?case
  proof (cases e)
    case (Throttle fn now)
    from Cons.IH[OF governed_throttle[OF Cons.prems, of fn now]] Throttle
    show ?thesis by (simp add: run_Cons)
  next
    case (TimerFires now)
    from Cons.IH[OF governed_timerFires[OF Cons.prems, of now]] TimerFires
    show ?thesis by (simp add: run_Cons)
  next
    case (Settles t)
    from Cons.IH[OF governed_settles[OF Cons.prems, of t]] Settles
    show ?thesis by (simp add: run_Cons)
  qed
qed


lemma submittedCalls_append:
  "submittedCalls (evs @ later) = submittedCalls evs @ submittedCalls later"
  by (induction evs rule: submittedCalls.induct) simp_all

lemma drain_queue:
  assumes "governed fns q"
  shows "\<exists>later. submittedCalls later = [] \<and> queue (run later q) = [] \<and> governed fns (run later q)"
  using assms
proof (induction "length (queue q)" arbitrary: q)
  case 0
  then have "submittedCalls [] = [] \<and> queue (run [] q) = [] \<and> governed fns (run [] q)"
    by (simp add: run_def)
  then show ?case by blast
next
  case (Suc k)
  then obtain c rest where queued: "queue q = c # rest"
    by (cases "queue q") auto
  with Suc.prems obtain due where due: "timer q = Some due"
    by (auto simp: governed_def)
  have "\<not> due < due" by simp
  note f = timerFires_next[OF due this queued]
  from Suc.hyps(2) queued have "k = length (queue (timerFires due q))"
    by (simp add: f)
  from Suc.hyps(1)[OF this governed_timerFires[OF Suc.prems]]
  obtain later where later: "submittedCalls later = []"
    "queue (run later (timerFires due q)) = []" "governed fns (run later (timerFires due q))"
    by blast
  then have "submittedCalls (TimerFires due # later) = []
     \<and> queue (run (TimerFires due # later) q) = []
     \<and> governed fns (run (TimerFires due # later) q)"
    by (simp add: run_Cons)
  then show ?case by blast
qed

lemma settle_all:
  assumes "governed fns q"
  shows "\<exists>later. submittedCalls later = [] \<and> inFlight (run later q) = []
           \<and> queue (run later q) = queue q \<and> governed fns (run later q)"
  using assms
proof (induction "length (inFlight q)" arbitrary: q rule: less_induct)
  case less
  show ?case
  proof (cases "inFlight q")
    case Nil
    with less.prems have "submittedCalls [] = [] \<and> inFlight (run [] q) = []
           \<and> queue (run [] q) = queue q \<and> governed fns (run [] q)"
      by (simp add: run_def)
    then show ?thesis by blast
  next
    case (Cons c cs)
    then have found: "find (\<lambda>c'. fst c' = fst c) (inFlight q) = Some c" by simp
    note f = settles_present[OF found]
    have "length (inFlight (settles (fst c) q)) < length (inFlight q)"
      using Cons by (simp add: f le_imp_less_Suc)
    from less.hyps[OF this governed_settles[OF less.prems]]
    obtain later where later: "submittedCalls later = []"
      "inFlight (run later (settles (fst c) q)) = []"
      "queue (run later (settles (fst c) q)) = queue (settles (fst c) q)"
      "governed fns (run later (settles (fst c) q))"
      by blast
    then have "submittedCalls (Settles (fst c) # later) = []
      \<and> inFlight (run (Settles (fst c) # later) q) = []
      \<and> queue (run (Settles (fst c) # later) q) = queue q
      \<and> governed fns (run (Settles (fst c) # later) q)"
      by (simp add: run_Cons f)
    then show ?thesis by blast
  qed
qed

lemma all_settle:
  assumes "governed fns q"
  shows "\<exists>later. submittedCalls later = []
           \<and> (\<forall>t < length fns. promises (run later q) t = Some (fns ! t))"
proof -
  from drain_queue[OF assms] obtain l1 where l1: "submittedCalls l1 = []"
    "queue (run l1 q) = []" "governed fns (run l1 q)" by blast
  from settle_all[OF l1(3)] obtain l2 where l2: "submittedCalls l2 = []"
    "inFlight (run l2 (run l1 q)) = []" "queue (run l2 (run l1 q)) = queue (run l1 q)"
    "governed fns (run l2 (run l1 q))" by blast
  let ?q = "run (l1 @ l2) q"
  have q: "?q = run l2 (run l1 q)" by (simp add: run_append)
  have quiet: "submittedCalls (l1 @ l2) = []" using l1(1) l2(1) by (simp add: submittedCalls_append)
  from l2(4) have g: "governed fns ?q" by (simp add: q)
  from l2(2,3) l1(2) have empty: "queue ?q = []" "inFlight ?q = []" by (simp_all add: q)
  from g empty have started: "dispatched ?q = [0..<length fns]" by (simp add: governed_def)
  have "\<forall>t < length fns. promises ?q t = Some (fns ! t)"
  proof (intro allI impI)
    fix t assume "t < length fns"
    with started have "t \<in> set (dispatched ?q)" by simp
    with g empty(2) have "t \<in> dom (promises ?q)" by (simp add: governed_def)
    then obtain out where out: "promises ?q t = Some out" by blast
    with g have "out = fns ! t" by (simp add: governed_def)
    with out show "promises ?q t = Some (fns ! t)" by simp
  qed
  with quiet show ?thesis by blast
qed

text \<open>
  C8: after any sequence of submissions, timer firings and settlements, a caller's
  promise that is settled holds the outcome of the very call submitted with it (resolved
  with its result, rejected with its error); the calls started so far, followed by the
  calls still queued, are the submitted calls in the order of submission; and with no
  further submission the timers can fire and the calls settle so that every caller's
  promise holds its own call's outcome.
\<close>

theorem governor_keeps_outcomes_and_order:
  "(\<forall>t out. promises (run evs (newThrottleQueue interval)) t = Some out
       \<longrightarrow> t < length (submittedCalls evs) \<and> out = submittedCalls evs ! t)
   \<and> dispatched (run evs (newThrottleQueue interval))
       @ map fst (queue (run evs (newThrottleQueue interval)))
     = [0..<length (submittedCalls evs)]
   \<and> (\<exists>later. submittedCalls later = []
        \<and> (\<forall>t < length (submittedCalls evs).
              promises (run (evs @ later) (newThrottleQueue interval)) t
              = Some (submittedCalls evs ! t)))"
proof -
  have g: "governed (submittedCalls evs) (run evs (newThrottleQueue interval))"
    using governed_run[OF governed_init, of evs interval] by simp
  from all_settle[OF g] have "\<exists>later. submittedCalls later = []
        \<and> (\<forall>t < length (submittedCalls evs).
              promises (run (evs @ later) (newThrottleQueue interval)) t
              = Some (submittedCalls evs ! t))"
    by (simp add: run_append)
  with g show ?thesis by (simp add: governed_def)
qed

theorem governor_keeps_outcomes_and_order_witness:
  "promises (run exampleEvents (newThrottleQueue 1000)) 0 = Some (Inr 7)
   \<and> promises (run exampleEvents (newThrottleQueue 1000)) 1 = Some (Inl ''boom'')
   \<and> submittedCalls exampleEvents ! 0 = Inr 7
   \<and> submittedCalls exampleEvents ! 1 = Inl ''boom''
   \<and> dispatched (run exampleEvents (newThrottleQueue 1000)) = [0, 1]
   \<and> (\<exists>later. submittedCalls later = []
         \<and> promises (run (take 3 exampleEvents @ later) (newThrottleQueue 1000)) 0 = Some (Inr 7)
         \<and> promises (run (take 3 exampleEvents @ later) (newThrottleQueue 1000)) 1
             = Some (Inl ''boom''))"
proof -
  have first: "promises (run exampleEvents (newThrottleQueue 1000)) 0 = Some (Inr 7)"
    by code_simp
  have second: "promises (run exampleEvents (newThrottleQueue 1000)) 1 = Some (Inl ''boom'')"
    by code_simp
  have drained: "queue (run exampleEvents (newThrottleQueue 1000)) = []"
    by code_simp
  have two: "length (submittedCalls exampleEvents) = 2"
    by code_simp
  have pending: "submittedCalls (take 3 exampleEvents) = [Inr 7, Inl ''boom'']"
    by code_simp
  note inst = governor_keeps_outcomes_and_order[of exampleEvents 1000]
  from inst first have a: "submittedCalls exampleEvents ! 0 = Inr 7" by metis
  from inst second have b: "submittedCalls exampleEvents ! 1 = Inl ''boom''" by metis
  from inst drained two have c: "dispatched (run exampleEvents (newThrottleQueue 1000)) = [0, 1]"
    by (simp add: upt_rec)
  from governor_keeps_outcomes_and_order[of "take 3 exampleEvents" 1000]
  obtain later where later: "submittedCalls later = []"
    "\<forall>t < length (submittedCalls (take 3 exampleEvents)).
        promises (run (take 3 exampleEvents @ later) (newThrottleQueue 1000)) t
        = Some (submittedCalls (take 3 exampleEvents) ! t)"
    by blast
  from later(2) pending
  have "promises (run (take 3 exampleEvents @ later) (newThrottleQueue 1000)) 0 = Some (Inr 7)"
    and "promises (run (take 3 exampleEvents @ later) (newThrottleQueue 1000)) 1 = Some (Inl ''boom'')"
    by simp_all
  with later(1) have d: "\<exists>later. submittedCalls later = []
         \<and> promises (run (take 3 exampleEvents @ later) (newThrottleQueue 1000)) 0 = Some (Inr 7)
         \<and> promises (run (take 3 exampleEvents @ later) (newThrottleQueue 1000)) 1
             = Some (Inl ''boom'')"
    by blast
  from first second a b c d show ?thesis by blast
qed

end
